theory Spec2Isabelle
  imports Main
begin

section \<open>The alert manager\<close>

text \<open>
  The alert manager module exports the string enums \<open>AlertSeverity\<close> and
  \<open>AlertChannel\<close>, the interfaces \<open>Alert\<close> and \<open>ChannelConfig\<close>, and the class
  \<open>AlertManager\<close>. A TypeScript string enum is its string at run time, and the
  \<open>switch\<close> statements over a severity have a \<open>default\<close> branch for any other
  string, so a severity is modelled as the string itself. The \<open>switch\<close> over a channel
  has no \<open>default\<close> branch; a channel is a datatype.
\<close>

type_synonym AlertSeverity = string

definition INFO :: AlertSeverity where "INFO = ''info''"
definition WARNING :: AlertSeverity where "WARNING = ''warning''"
definition HIGH :: AlertSeverity where "HIGH = ''high''"
definition CRITICAL :: AlertSeverity where "CRITICAL = ''critical''"

datatype AlertChannel = SLACK | EMAIL | PAGERDUTY | WEBHOOK | CONSOLE

fun channel_name :: "AlertChannel \<Rightarrow> string" where
  "channel_name SLACK = ''slack''"
| "channel_name EMAIL = ''email''"
| "channel_name PAGERDUTY = ''pagerduty''"
| "channel_name WEBHOOK = ''webhook''"
| "channel_name CONSOLE = ''console''"

text \<open>
  Times are milliseconds since the epoch (\<open>Date.now()\<close>, \<open>Date.getTime()\<close>), as
  integers. An optional field is an \<open>option\<close>. The free-form \<open>context\<close> record is a
  list of key and value strings.
\<close>

record Alert =
  severity :: AlertSeverity
  title :: string
  message :: string
  context_a :: "(string \<times> string) list option"
  channels :: "AlertChannel list option"
  tags :: "string list option"
  timestamp :: "int option"

text \<open>
  The values of a channel's \<open>config\<close> object. \<open>CParseInt s\<close> stands for the number
  \<open>parseInt(s)\<close>, which only the mail transport would read.
\<close>

datatype cfg_value =
  CStr string | CBool bool | CList "string list" | CParseInt string | CUndefined

record ChannelConfig =
  enabled :: bool
  config :: "(string \<times> cfg_value) list"

text \<open>
  The private fields of the class. \<open>maxHistorySize\<close> and \<open>rateLimitWindow\<close> are
  initialised once and never assigned again, so they are constants.
\<close>

record AlertManager =
  channels_m :: "AlertChannel \<rightharpoonup> ChannelConfig"
  alertHistory :: "Alert list"
  rateLimiter :: "string \<rightharpoonup> int"

definition maxHistorySize :: nat where "maxHistorySize = 100"
definition rateLimitWindow :: int where "rateLimitWindow = 300000"

subsection \<open>The process environment and the constructor\<close>

type_synonym Env = "string \<rightharpoonup> string"

text \<open>\<open>process.env.X\<close> in a condition: defined and not the empty string.\<close>

fun truthy :: "string option \<Rightarrow> bool" where
  "truthy None = False"
| "truthy (Some s) = (s \<noteq> [])"

text \<open>\<open>process.env.X || d\<close>.\<close>

fun or_default :: "string option \<Rightarrow> string \<Rightarrow> string" where
  "or_default None d = d"
| "or_default (Some s) d = (if s = [] then d else s)"

text \<open>\<open>s.split(',')\<close>: the empty string gives one empty piece.\<close>

fun split_comma :: "string \<Rightarrow> string list" where
  "split_comma [] = [[]]"
| "split_comma (c # cs) =
     (if c = CHR '','' then [] # split_comma cs
      else (case split_comma cs of
              [] \<Rightarrow> [[c]]
            | w # ws \<Rightarrow> (c # w) # ws))"

definition opt_str :: "string option \<Rightarrow> cfg_value" where
  "opt_str v = (case v of None \<Rightarrow> CUndefined | Some s \<Rightarrow> CStr s)"

definition initializeChannels :: "Env \<Rightarrow> AlertManager \<Rightarrow> AlertManager" where
  "initializeChannels env m0 =
     (let m1 = (if truthy (env ''SLACK_WEBHOOK_URL'')
                then m0\<lparr>channels_m := (channels_m m0)(SLACK \<mapsto>
                       \<lparr>enabled = True,
                        config = [(''webhookUrl'', opt_str (env ''SLACK_WEBHOOK_URL'')),
                                  (''channel'', CStr (or_default (env ''SLACK_CHANNEL'') ''#alerts'')),
                                  (''username'', CStr (or_default (env ''SLACK_USERNAME'') ''Alert Bot''))]\<rparr>)\<rparr>
                else m0);
          m2 = (if truthy (env ''SMTP_HOST'')
                then m1\<lparr>channels_m := (channels_m m1)(EMAIL \<mapsto>
                       \<lparr>enabled = True,
                        config = [(''host'', opt_str (env ''SMTP_HOST'')),
                                  (''port'', CParseInt (or_default (env ''SMTP_PORT'') ''587'')),
                                  (''secure'', CBool (env ''SMTP_SECURE'' = Some ''true'')),
                                  (''from'', opt_str (env ''EMAIL_FROM'')),
                                  (''to'', CList (case env ''ALERT_EMAIL_TO'' of
                                                    None \<Rightarrow> []
                                                  | Some s \<Rightarrow> split_comma s))]\<rparr>)\<rparr>
                else m1);
          m3 = (if truthy (env ''PAGERDUTY_INTEGRATION_KEY'')
                then m2\<lparr>channels_m := (channels_m m2)(PAGERDUTY \<mapsto>
                       \<lparr>enabled = True,
                        config = [(''integrationKey'',
                                   opt_str (env ''PAGERDUTY_INTEGRATION_KEY''))]\<rparr>)\<rparr>
                else m2)
      in m3\<lparr>channels_m := (channels_m m3)(CONSOLE \<mapsto>
             \<lparr>enabled = (env ''NODE_ENV'' = Some ''development''), config = []\<rparr>)\<rparr>)"

definition new_AlertManager :: "Env \<Rightarrow> AlertManager" where
  "new_AlertManager env =
     initializeChannels env
       \<lparr>channels_m = Map.empty, alertHistory = [], rateLimiter = Map.empty\<rparr>"

subsection \<open>What a call reads from outside, and what it does outside\<close>

text \<open>
  One call of \<open>send\<close> reads the clock up to three times and starts one adapter call
  per dispatched channel. A \<open>world\<close> holds what the call finds there:
  \<open>new_Date\<close> is the value of \<open>new Date()\<close> when the alert carries no timestamp,
  \<open>Date_now1\<close> and \<open>Date_now2\<close> are the first and the second \<open>Date.now()\<close>
  that \<open>isRateLimited\<close> evaluates, and \<open>adapter_fails i\<close> is the outcome of the
  adapter call of the \<open>i\<close>-th resolved channel: \<open>None\<close> when it completes,
  \<open>Some msg\<close> when it throws or its promise is rejected with message \<open>msg\<close>.
\<close>

record world =
  new_Date :: int
  Date_now1 :: int
  Date_now2 :: int
  adapter_fails :: "nat \<Rightarrow> string option"

text \<open>
  The effects outside the manager: a call of the logger (level and message; the
  structured fields are left out) and the invocation of a channel adapter with the
  alert. The construction of an adapter's payload and its transport are outside the
  model.
\<close>

datatype level = Debug | Info | Warn | Error

datatype event = Log level string | Invoked AlertChannel Alert

text \<open>A settled promise: \<open>Inl\<close> is a rejection with its reason.\<close>

type_synonym 'a promise = "string + 'a"

subsection \<open>The private methods\<close>

definition rate_key :: "Alert \<Rightarrow> string" where
  "rate_key alert = title alert @ '':'' @ severity alert"

text \<open>
  \<open>!lastSent\<close> holds for a missing key and for the number 0.
\<close>

definition isRateLimited :: "world \<Rightarrow> AlertManager \<Rightarrow> Alert \<Rightarrow> bool \<times> AlertManager" where
  "isRateLimited w m alert =
     (let key = rate_key alert in
      case rateLimiter m key of
        None \<Rightarrow> (False, m\<lparr>rateLimiter := (rateLimiter m)(key \<mapsto> Date_now1 w)\<rparr>)
      | Some lastSent \<Rightarrow>
          if lastSent = 0
          then (False, m\<lparr>rateLimiter := (rateLimiter m)(key \<mapsto> Date_now1 w)\<rparr>)
          else if Date_now1 w - lastSent < rateLimitWindow then (True, m)
          else (False, m\<lparr>rateLimiter := (rateLimiter m)(key \<mapsto> Date_now2 w)\<rparr>))"

definition addToHistory :: "AlertManager \<Rightarrow> Alert \<Rightarrow> AlertManager" where
  "addToHistory m alert =
     (let h = alert # alertHistory m
      in m\<lparr>alertHistory := (if length h > maxHistorySize then butlast h else h)\<rparr>)"

definition getDefaultChannels :: "AlertSeverity \<Rightarrow> AlertChannel list" where
  "getDefaultChannels sev =
     (if sev = CRITICAL then [SLACK, PAGERDUTY, EMAIL]
      else if sev = HIGH then [SLACK, EMAIL]
      else if sev = WARNING then [SLACK]
      else [CONSOLE])"

text \<open>
  The five adapters. Each is one invocation with the alert; whether it fails is the
  world's.
\<close>

definition sendToSlack :: "string option \<Rightarrow> Alert \<Rightarrow> (string \<times> cfg_value) list \<Rightarrow> event list \<times> unit promise" where
  "sendToSlack outcome alert cfg =
     ([Invoked SLACK alert], case outcome of None \<Rightarrow> Inr () | Some e \<Rightarrow> Inl e)"

definition sendToEmail :: "string option \<Rightarrow> Alert \<Rightarrow> (string \<times> cfg_value) list \<Rightarrow> event list \<times> unit promise" where
  "sendToEmail outcome alert cfg =
     ([Invoked EMAIL alert, Log Info ''Email alert would be sent''],
      case outcome of None \<Rightarrow> Inr () | Some e \<Rightarrow> Inl e)"

definition sendToPagerDuty :: "string option \<Rightarrow> Alert \<Rightarrow> (string \<times> cfg_value) list \<Rightarrow> event list \<times> unit promise" where
  "sendToPagerDuty outcome alert cfg =
     ([Invoked PAGERDUTY alert], case outcome of None \<Rightarrow> Inr () | Some e \<Rightarrow> Inl e)"

definition sendToConsole :: "string option \<Rightarrow> Alert \<Rightarrow> event list \<times> unit promise" where
  "sendToConsole outcome alert =
     ([Invoked CONSOLE alert], case outcome of None \<Rightarrow> Inr () | Some e \<Rightarrow> Inl e)"

definition sendToWebhook :: "string option \<Rightarrow> Alert \<Rightarrow> (string \<times> cfg_value) list \<Rightarrow> event list \<times> unit promise" where
  "sendToWebhook outcome alert cfg =
     ([Invoked WEBHOOK alert], case outcome of None \<Rightarrow> Inr () | Some e \<Rightarrow> Inl e)"

text \<open>
  \<open>sendToChannel\<close>: a channel without a configuration or with a disabled one is
  skipped; otherwise the adapter runs inside \<open>try\<close>, and the \<open>catch\<close> logs.
\<close>

definition sendToChannel ::
  "string option \<Rightarrow> AlertManager \<Rightarrow> Alert \<Rightarrow> AlertChannel \<Rightarrow> event list \<times> unit promise" where
  "sendToChannel outcome m alert channel =
     (case channels_m m channel of
        None \<Rightarrow>
          ([Log Debug (''Channel '' @ channel_name channel @ '' not enabled, skipping'')], Inr ())
      | Some channelConfig \<Rightarrow>
          if \<not> enabled channelConfig
          then ([Log Debug (''Channel '' @ channel_name channel @ '' not enabled, skipping'')],
                Inr ())
          else
            (case (case channel of
                     SLACK \<Rightarrow> sendToSlack outcome alert (config channelConfig)
                   | EMAIL \<Rightarrow> sendToEmail outcome alert (config channelConfig)
                   | PAGERDUTY \<Rightarrow> sendToPagerDuty outcome alert (config channelConfig)
                   | CONSOLE \<Rightarrow> sendToConsole outcome alert
                   | WEBHOOK \<Rightarrow> sendToWebhook outcome alert (config channelConfig)) of
               (evs, Inr u) \<Rightarrow> (evs, Inr ())
             | (evs, Inl err) \<Rightarrow>
                 (evs @ [Log Error (''Failed to send alert to '' @ channel_name channel)],
                  Inr ())))"

text \<open>
  \<open>Promise.allSettled\<close> waits for every promise and is fulfilled with the list of
  their outcomes, whatever they are.
\<close>

definition allSettled :: "'a promise list \<Rightarrow> ('a promise list) promise" where
  "allSettled ps = Inr ps"

subsection \<open>The public methods\<close>

text \<open>
  \<open>send\<close> returns a promise of nothing; the model adds what the call did: the
  manager afterwards, the caller's alert object after the timestamp was set, and the
  events. The events of one channel call are kept together, in the order of that call,
  and the groups follow the order in which the channels were started. This is not the
  order in time across channels: every channel is started before an awaited adapter
  settles, so the log entry of a failing awaited adapter comes, in time, after the
  events of the channels started later. Only statements about which events a call has
  are to be read from the list of a dispatched alert.
\<close>

record send_result =
  manager :: AlertManager
  stamped :: Alert
  events :: "event list"

text \<open>The first statement of \<open>send\<close>: \<open>alert.timestamp = alert.timestamp || new Date()\<close>.\<close>

definition stamp :: "world \<Rightarrow> Alert \<Rightarrow> Alert" where
  "stamp w alert =
     alert\<lparr>timestamp := (case timestamp alert of
                            Some t \<Rightarrow> Some t
                          | None \<Rightarrow> Some (new_Date w))\<rparr>"

text \<open>\<open>alert.channels || this.getDefaultChannels(alert.severity)\<close>: an array, also
  the empty one, is taken as it is.\<close>

definition resolve_channels :: "Alert \<Rightarrow> AlertChannel list" where
  "resolve_channels alert =
     (case channels alert of
        Some cs \<Rightarrow> cs
      | None \<Rightarrow> getDefaultChannels (severity alert))"

text \<open>
  \<open>channels.map(channel => this.sendToChannel(alert, channel))\<close>: the calls start
  in the order of the list, the \<open>i\<close>-th with the outcome the world has for it.
\<close>

definition dispatch ::
  "world \<Rightarrow> AlertManager \<Rightarrow> Alert \<Rightarrow> AlertChannel list \<Rightarrow> (event list \<times> unit promise) list" where
  "dispatch w m alert chans =
     map (\<lambda>(channel, i). sendToChannel (adapter_fails w i) m alert channel)
         (zip chans [0..<length chans])"

text \<open>
  \<open>send\<close>: the rate-limited branch returns after the log entry; otherwise the alert
  is added to the history and dispatched, and the \<open>try\<close> around the join logs
  either the success or, in its \<open>catch\<close>, the failure of the join.
\<close>

definition send :: "world \<Rightarrow> AlertManager \<Rightarrow> Alert \<Rightarrow> send_result promise" where
  "send w m alert0 =
     (let alert = stamp w alert0 in
      case isRateLimited w m alert of
        (True, m1) \<Rightarrow>
          Inr \<lparr>manager = m1, stamped = alert, events = [Log Warn ''Alert rate limited'']\<rparr>
      | (False, m1) \<Rightarrow>
          (let m2 = addToHistory m1 alert;
               chans = resolve_channels alert;
               promises = dispatch w m2 alert chans
           in case allSettled (map snd promises) of
                Inr settled \<Rightarrow>
                  Inr \<lparr>manager = m2, stamped = alert,
                       events = concat (map fst promises) @ [Log Info ''Alert sent'']\<rparr>
              | Inl err \<Rightarrow>
                  Inr \<lparr>manager = m2, stamped = alert,
                       events = concat (map fst promises) @ [Log Error ''Failed to send alert'']\<rparr>))"

text \<open>
  \<open>Array.prototype.slice(0, end)\<close> for an integer \<open>end\<close>: a negative \<open>end\<close>
  counts from the end of the array.
\<close>

definition slice0 :: "'a list \<Rightarrow> int \<Rightarrow> 'a list" where
  "slice0 xs e =
     (let len = int (length xs);
          k = (if e < 0 then max (len + e) 0 else min e len)
      in take (nat k) xs)"

definition getHistory :: "AlertManager \<Rightarrow> int option \<Rightarrow> Alert list \<times> AlertManager" where
  "getHistory m limit =
     (slice0 (alertHistory m) (case limit of None \<Rightarrow> 10 | Some n \<Rightarrow> n), m)"

definition clearHistory :: "AlertManager \<Rightarrow> AlertManager" where
  "clearHistory m = m\<lparr>alertHistory := [], rateLimiter := Map.empty\<rparr>"

definition configureChannel :: "AlertManager \<Rightarrow> AlertChannel \<Rightarrow> ChannelConfig \<Rightarrow> AlertManager" where
  "configureChannel m channel cc = m\<lparr>channels_m := (channels_m m)(channel \<mapsto> cc)\<rparr>"

subsection \<open>Runs of the manager\<close>

text \<open>
  A run is a sequence of \<open>send\<close> calls, each with its own world; a rejected call
  would end the run. \<open>recorded\<close> lists, oldest first, the alerts of the run that
  passed the rate limiter, as the caller's objects look after the call.
\<close>

fun sends :: "AlertManager \<Rightarrow> (world \<times> Alert) list \<Rightarrow> AlertManager promise" where
  "sends m [] = Inr m"
| "sends m ((w, alert) # rest) =
     (case send w m alert of
        Inl err \<Rightarrow> Inl err
      | Inr r \<Rightarrow> sends (manager r) rest)"

fun recorded :: "AlertManager \<Rightarrow> (world \<times> Alert) list \<Rightarrow> Alert list" where
  "recorded m [] = []"
| "recorded m ((w, alert) # rest) =
     (case send w m alert of
        Inl err \<Rightarrow> []
      | Inr r \<Rightarrow>
          (if fst (isRateLimited w m (stamp w alert)) then [] else [stamped r])
          @ recorded (manager r) rest)"

text \<open>
  The states of the exported singleton: it is constructed once, and from then on only
  the public methods change it.
\<close>

inductive reachable :: "AlertManager \<Rightarrow> bool" where
  constructed: "reachable (new_AlertManager env)"
| after_send: "reachable m \<Longrightarrow> send w m alert = Inr r \<Longrightarrow> reachable (manager r)"
| after_clearHistory: "reachable m \<Longrightarrow> reachable (clearHistory m)"
| after_configureChannel: "reachable m \<Longrightarrow> reachable (configureChannel m channel cc)"

section \<open>The error handler\<close>

text \<open>
  The callers import \<open>errorHandler\<close>, \<open>AppError\<close>, \<open>ErrorSeverity\<close> and
  \<open>ErrorCategory\<close> from the error handler module and build errors from a message, a
  severity, a category, a code, a \<open>recoverable\<close> flag and optionally a context and a
  cause. The module itself is described by the specification only.
\<close>

text \<open>Modelled from the spec: the severity of a canonical error, one of
  \<open>low|medium|high|critical\<close>; the error handler module is not among the sources.\<close>

datatype ErrorSeverity = LOW | MEDIUM | SEV_HIGH | SEV_CRITICAL

text \<open>Modelled from the spec: the nine categories of a canonical error.\<close>

datatype ErrorCategory =
  VALIDATION | AUTHENTICATION | AUTHORIZATION | NETWORK | DATABASE | BUSINESS_LOGIC
  | SYSTEM | EXTERNAL_SERVICE | CONFIGURATION

text \<open>Modelled from the spec: the name of a category as it appears in the registry key
  \<open>category:code\<close>.\<close>

fun category_name :: "ErrorCategory \<Rightarrow> string" where
  "category_name VALIDATION = ''validation''"
| "category_name AUTHENTICATION = ''authentication''"
| "category_name AUTHORIZATION = ''authorization''"
| "category_name NETWORK = ''network''"
| "category_name DATABASE = ''database''"
| "category_name BUSINESS_LOGIC = ''business_logic''"
| "category_name SYSTEM = ''system''"
| "category_name EXTERNAL_SERVICE = ''external_service''"
| "category_name CONFIGURATION = ''configuration''"

text \<open>Modelled from the spec: the declared recovery strategies.\<close>

datatype RecoveryStrategy = RETRY | FALLBACK | CIRCUIT_BREAK | COMPENSATE | ESCALATE | IGNORE

text \<open>Modelled from the spec: the ambient correlation fields captured when a canonical
  error is created.\<close>

record ambient =
  correlationId :: "string option"
  userId :: "string option"
  sessionId :: "string option"
  traceId :: "string option"

text \<open>Modelled from the spec: the canonical error record of the data model (identity,
  creation time, severity, category, code, context, recoverable flag, optional strategy,
  optional remediation hint, optional cause, ambient fields).\<close>

record CanonicalError =
  err_id :: nat
  err_timestamp :: int
  err_severity :: ErrorSeverity
  err_category :: ErrorCategory
  err_code :: string
  err_message :: string
  err_context :: "(string \<times> string) list"
  recoverable :: bool
  recovery :: "RecoveryStrategy option"
  suggestion :: "string option"
  cause :: "string option"
  err_ambient :: ambient

text \<open>Modelled from the spec: any failure value, which is either already canonical or
  some other failure with a message and a stack.\<close>

datatype failure = Canonical CanonicalError | Foreign string string

text \<open>Modelled from the spec: the ErrorNormalizer. A canonical input is returned
  unchanged; anything else becomes a new record with severity \<open>medium\<close>, category
  \<open>system\<close>, code \<open>UNKNOWN_ERROR\<close>, \<open>recoverable = false\<close> and the original message and
  stack as context. The first argument is the next unused id, returned updated; the clock
  and the ambient fields are what the call finds.\<close>

definition normalize :: "nat \<Rightarrow> int \<Rightarrow> ambient \<Rightarrow> failure \<Rightarrow> CanonicalError \<times> nat" where
  "normalize next_free now amb f =
     (case f of
        Canonical e \<Rightarrow> (e, next_free)
      | Foreign msg stack \<Rightarrow>
          (\<lparr>err_id = next_free, err_timestamp = now, err_severity = MEDIUM,
            err_category = SYSTEM, err_code = ''UNKNOWN_ERROR'', err_message = msg,
            err_context = [(''message'', msg), (''stack'', stack)],
            recoverable = False, recovery = None, suggestion = None, cause = None,
            err_ambient = amb\<rparr>,
           Suc next_free))"

text \<open>Modelled from the spec: the key \<open>category:code\<close> of the failure registry and of
  the circuit breakers.\<close>

definition error_key :: "ErrorCategory \<Rightarrow> string \<Rightarrow> string" where
  "error_key cat code = category_name cat @ '':'' @ code"

text \<open>Modelled from the spec: the FailureRegistry, \<open>recordOccurrence(category, code)\<close>
  increments the lifetime counter of the key and returns the new total.\<close>

definition recordOccurrence ::
  "(string \<rightharpoonup> nat) \<Rightarrow> ErrorCategory \<Rightarrow> string \<Rightarrow> nat \<times> (string \<rightharpoonup> nat)" where
  "recordOccurrence reg cat code =
     (let key = error_key cat code;
          n = (case reg key of None \<Rightarrow> 0 | Some c \<Rightarrow> c) + 1
      in (n, reg(key \<mapsto> n)))"

text \<open>Modelled from the spec: the three states of a circuit breaker.\<close>

datatype BreakerState = Closed | Open | HalfOpen

text \<open>Modelled from the spec: a circuit breaker (state, failure counter, time of the last
  failure).\<close>

record CircuitBreaker =
  cb_state :: BreakerState
  failures :: nat
  lastFailure :: "int option"

text \<open>Modelled from the spec: the CircuitBreakerRegistry, with the configured failure
  threshold and open duration and the pending deferred transitions (key and due time).\<close>

record CircuitBreakerRegistry =
  breakers :: "string \<rightharpoonup> CircuitBreaker"
  threshold :: nat
  timeout_ms :: int
  scheduled :: "string \<rightharpoonup> int"

text \<open>Modelled from the spec: the registry as created, with the default threshold 5 and
  the default open duration of 60 seconds.\<close>

definition new_CircuitBreakerRegistry :: CircuitBreakerRegistry where
  "new_CircuitBreakerRegistry =
     \<lparr>breakers = Map.empty, threshold = 5, timeout_ms = 60000, scheduled = Map.empty\<rparr>"

text \<open>Modelled from the spec: breakers are created lazily, closed and with counter zero.\<close>

definition breaker_of :: "CircuitBreakerRegistry \<Rightarrow> string \<Rightarrow> CircuitBreaker" where
  "breaker_of reg key =
     (case breakers reg key of
        None \<Rightarrow> \<lparr>cb_state = Closed, failures = 0, lastFailure = None\<rparr>
      | Some b \<Rightarrow> b)"

text \<open>Modelled from the spec: \<open>recordFailure(key)\<close>. Closed: increment the counter and,
  when it has reached the threshold, open and schedule the transition to half-open after
  the open duration. Open: nothing changes. Half-open: the specification leaves the
  transition open; the model changes nothing there.\<close>

definition recordFailure :: "int \<Rightarrow> CircuitBreakerRegistry \<Rightarrow> string \<Rightarrow> CircuitBreakerRegistry" where
  "recordFailure now reg key =
     (let b = breaker_of reg key in
      case cb_state b of
        Closed \<Rightarrow>
          (let b1 = b\<lparr>failures := failures b + 1, lastFailure := Some now\<rparr> in
           if failures b1 \<ge> threshold reg
           then reg\<lparr>breakers := (breakers reg)(key \<mapsto> b1\<lparr>cb_state := Open\<rparr>),
                    scheduled := (scheduled reg)(key \<mapsto> now + timeout_ms reg)\<rparr>
           else reg\<lparr>breakers := (breakers reg)(key \<mapsto> b1)\<rparr>)
      | Open \<Rightarrow> reg
      | HalfOpen \<Rightarrow> reg)"

text \<open>Modelled from the spec: the deferred transition, run by the timer when the open
  duration has elapsed: an open breaker becomes half-open.\<close>

definition timerFires :: "CircuitBreakerRegistry \<Rightarrow> string \<Rightarrow> CircuitBreakerRegistry" where
  "timerFires reg key =
     (case breakers reg key of
        None \<Rightarrow> reg
      | Some b \<Rightarrow>
          reg\<lparr>breakers := (breakers reg)(key \<mapsto>
                  (if cb_state b = Open then b\<lparr>cb_state := HalfOpen\<rparr> else b)),
              scheduled := (scheduled reg)(key := None)\<rparr>)"

text \<open>Modelled from the spec: \<open>recordSuccess(key)\<close> closes a half-open breaker and
  resets its counter.\<close>

definition recordSuccess :: "CircuitBreakerRegistry \<Rightarrow> string \<Rightarrow> CircuitBreakerRegistry" where
  "recordSuccess reg key =
     (case breakers reg key of
        None \<Rightarrow> reg
      | Some b \<Rightarrow>
          if cb_state b = HalfOpen
          then reg\<lparr>breakers := (breakers reg)(key \<mapsto> b\<lparr>cb_state := Closed, failures := 0\<rparr>)\<rparr>
          else reg)"

text \<open>Modelled from the spec: \<open>getState(key)\<close>.\<close>

definition getState :: "CircuitBreakerRegistry \<Rightarrow> string \<Rightarrow> BreakerState" where
  "getState reg key = cb_state (breaker_of reg key)"

text \<open>Modelled from the spec: \<open>isOpen(key)\<close>.\<close>

definition isOpen :: "CircuitBreakerRegistry \<Rightarrow> string \<Rightarrow> bool" where
  "isOpen reg key = (getState reg key = Open)"

text \<open>Modelled from the spec: consecutive \<open>recordFailure\<close> calls for one key, at the
  given clock readings.\<close>

fun recordFailures :: "CircuitBreakerRegistry \<Rightarrow> string \<Rightarrow> int list \<Rightarrow> CircuitBreakerRegistry" where
  "recordFailures reg key [] = reg"
| "recordFailures reg key (t # ts) = recordFailures (recordFailure t reg key) key ts"

text \<open>Modelled from the spec: the wording of the alerts the handler raises, which the
  specification does not give; the handler takes it as an argument.\<close>

record formats =
  critical_title :: "CanonicalError \<Rightarrow> string"
  critical_message :: "CanonicalError \<Rightarrow> string"
  rate_title :: "CanonicalError \<Rightarrow> nat \<Rightarrow> string"
  rate_message :: "CanonicalError \<Rightarrow> nat \<Rightarrow> string"
  escalate_title :: "CanonicalError \<Rightarrow> string"
  escalate_message :: "CanonicalError \<Rightarrow> string"

text \<open>Modelled from the spec: what one \<open>handle\<close> call finds outside: the clock and the
  ambient fields at normalisation, the world of the alert of the gate, the world of the
  alert of an escalation, and the clock at a recorded breaker failure.\<close>

record handle_world =
  hw_now :: int
  hw_ambient :: ambient
  hw_gate :: world
  hw_escalate :: world
  hw_failure :: int

text \<open>Modelled from the spec: the process-wide registries the facade composes; the alert
  dispatcher is the alert manager above.\<close>

record ErrorHandler =
  next_id :: nat
  occurrences :: "string \<rightharpoonup> nat"
  circuit :: CircuitBreakerRegistry
  alerts :: AlertManager

text \<open>Modelled from the spec: an alert about an error, with no explicit channel list and
  no timestamp of its own.\<close>

definition make_alert :: "AlertSeverity \<Rightarrow> string \<Rightarrow> string \<Rightarrow> CanonicalError \<Rightarrow> Alert" where
  "make_alert sev t msg e =
     \<lparr>severity = sev, title = t, message = msg, context_a = Some (err_context e),
      channels = None, tags = None, timestamp = None\<rparr>"

text \<open>Modelled from the spec: the alert for a critical error.\<close>

definition critical_alert :: "formats \<Rightarrow> CanonicalError \<Rightarrow> Alert" where
  "critical_alert fmt e = make_alert CRITICAL (critical_title fmt e) (critical_message fmt e) e"

text \<open>Modelled from the spec: the \<open>warning\<close> alert that summarises the rate of a key.\<close>

definition rate_alert :: "formats \<Rightarrow> CanonicalError \<Rightarrow> nat \<Rightarrow> Alert" where
  "rate_alert fmt e n = make_alert WARNING (rate_title fmt e n) (rate_message fmt e n) e"

text \<open>Modelled from the spec: the \<open>high\<close> alert of the \<open>escalate\<close> strategy.\<close>

definition escalate_alert :: "formats \<Rightarrow> CanonicalError \<Rightarrow> Alert" where
  "escalate_alert fmt e = make_alert HIGH (escalate_title fmt e) (escalate_message fmt e) e"

text \<open>Modelled from the spec: the handler passes an alert to \<open>send\<close> of the alert
  manager; a rejection would be swallowed.\<close>

definition send_alert :: "world \<Rightarrow> ErrorHandler \<Rightarrow> Alert \<Rightarrow> ErrorHandler" where
  "send_alert w h alert =
     (case send w (alerts h) alert of
        Inl err \<Rightarrow> h
      | Inr r \<Rightarrow> h\<lparr>alerts := manager r\<rparr>)"

text \<open>Modelled from the spec: the RecoveryOrchestrator, \<open>attempt(error)\<close>. The retry,
  fallback and compensation hooks are extension points and \<open>ignore\<close> writes an audit log
  entry only; none of them touches the registries.\<close>

definition attempt :: "formats \<Rightarrow> handle_world \<Rightarrow> ErrorHandler \<Rightarrow> CanonicalError \<Rightarrow> ErrorHandler" where
  "attempt fmt hw h e =
     (case recovery e of
        None \<Rightarrow> h
      | Some RETRY \<Rightarrow> h
      | Some FALLBACK \<Rightarrow> h
      | Some CIRCUIT_BREAK \<Rightarrow>
          h\<lparr>circuit := recordFailure (hw_failure hw) (circuit h)
                           (error_key (err_category e) (err_code e))\<rparr>
      | Some COMPENSATE \<Rightarrow> h
      | Some ESCALATE \<Rightarrow> send_alert (hw_escalate hw) h (escalate_alert fmt e)
      | Some IGNORE \<Rightarrow> h)"

text \<open>Modelled from the spec: the ErrorHandler facade, \<open>handle(failure)\<close>: normalise,
  record the occurrence, pass the alert gate (a critical error always alerts; otherwise a
  count above 10 sends the \<open>warning\<close> alert), and delegate a recoverable error to the
  orchestrator.\<close>

definition handle :: "formats \<Rightarrow> handle_world \<Rightarrow> ErrorHandler \<Rightarrow> failure \<Rightarrow> ErrorHandler" where
  "handle fmt hw h f =
     (case normalize (next_id h) (hw_now hw) (hw_ambient hw) f of
        (e, nid) \<Rightarrow>
          (case recordOccurrence (occurrences h) (err_category e) (err_code e) of
             (count, occ) \<Rightarrow>
               (let h1 = h\<lparr>next_id := nid, occurrences := occ\<rparr>;
                    h2 = (if err_severity e = SEV_CRITICAL
                          then send_alert (hw_gate hw) h1 (critical_alert fmt e)
                          else if count > 10
                          then send_alert (hw_gate hw) h1 (rate_alert fmt e count)
                          else h1)
                in if recoverable e then attempt fmt hw h2 e else h2)))"

section \<open>Example inputs\<close>

text \<open>The clock reads \<open>t\<close> throughout the call and every adapter completes.\<close>

definition at_time :: "int \<Rightarrow> world" where
  "at_time t = \<lparr>new_Date = t, Date_now1 = t, Date_now2 = t, adapter_fails = (\<lambda>i. None)\<rparr>"

text \<open>The clock reads \<open>t\<close> and the adapter of the first resolved channel fails.\<close>

definition first_fails_at :: "int \<Rightarrow> world" where
  "first_fails_at t =
     \<lparr>new_Date = t, Date_now1 = t, Date_now2 = t,
      adapter_fails = (\<lambda>i. if i = 0 then Some ''connect ECONNREFUSED'' else None)\<rparr>"

definition dev_env :: Env where
  "dev_env = map_of [(''NODE_ENV'', ''development''),
                     (''SLACK_WEBHOOK_URL'', ''https://hooks.example/T0'')]"

definition disk_alert :: Alert where
  "disk_alert =
     \<lparr>severity = ''warning'', title = ''disk'', message = ''disk almost full'',
      context_a = None, channels = None, tags = None, timestamp = None\<rparr>"

definition both_alert :: Alert where
  "both_alert =
     \<lparr>severity = ''critical'', title = ''db'', message = ''database down'',
      context_a = None, channels = Some [SLACK, CONSOLE], tags = None, timestamp = Some 5\<rparr>"

definition full_manager :: AlertManager where
  "full_manager =
     \<lparr>channels_m = Map.empty, alertHistory = replicate 100 disk_alert,
      rateLimiter = map_of [(''disk:warning'', 7)]\<rparr>"

definition plain_formats :: formats where
  "plain_formats =
     \<lparr>critical_title = err_code, critical_message = err_message,
      rate_title = (\<lambda>e n. err_code e), rate_message = (\<lambda>e n. err_message e),
      escalate_title = err_code, escalate_message = err_message\<rparr>"

definition no_ambient :: ambient where
  "no_ambient = \<lparr>correlationId = None, userId = None, sessionId = None, traceId = None\<rparr>"

definition uncaught :: CanonicalError where
  "uncaught =
     \<lparr>err_id = 0, err_timestamp = 900, err_severity = SEV_CRITICAL, err_category = SYSTEM,
      err_code = ''UNCAUGHT_EXCEPTION'', err_message = ''Uncaught exception: boom'',
      err_context = [], recoverable = False, recovery = None, suggestion = None,
      cause = Some ''boom'', err_ambient = no_ambient\<rparr>"

definition quiet_world :: handle_world where
  "quiet_world =
     \<lparr>hw_now = 1000, hw_ambient = no_ambient, hw_gate = at_time 1000,
      hw_escalate = at_time 1001, hw_failure = 1002\<rparr>"

definition later_world :: handle_world where
  "later_world =
     \<lparr>hw_now = 2000, hw_ambient = no_ambient, hw_gate = at_time 2000,
      hw_escalate = at_time 2001, hw_failure = 2002\<rparr>"

definition page_alert :: Alert where
  "page_alert =
     \<lparr>severity = ''critical'', title = ''api'', message = ''api down'',
      context_a = None, channels = None, tags = None, timestamp = None\<rparr>"


definition fresh_handler :: ErrorHandler where
  "fresh_handler =
     \<lparr>next_id = 1, occurrences = Map.empty, circuit = new_CircuitBreakerRegistry,
      alerts = new_AlertManager dev_env\<rparr>"

section \<open>Properties of the alert manager\<close>

subsection \<open>The steps of \<open>send\<close>\<close>

lemma rate_key_stamp [simp]: "rate_key (stamp w a) = rate_key a"
  by (simp add: rate_key_def stamp_def)

lemma resolve_channels_stamp [simp]: "resolve_channels (stamp w a) = resolve_channels a"
  by (simp add: resolve_channels_def stamp_def split: option.splits)

lemma isRateLimited_True_iff:
  "fst (isRateLimited w m a) \<longleftrightarrow>
     (\<exists>T. rateLimiter m (rate_key a) = Some T \<and> T \<noteq> 0 \<and> Date_now1 w - T < rateLimitWindow)"
  by (auto simp: isRateLimited_def Let_def split: option.splits)

lemma isRateLimited_True_state:
  "fst (isRateLimited w m a) \<Longrightarrow> snd (isRateLimited w m a) = m"
  by (auto simp: isRateLimited_def Let_def split: option.splits if_splits)

lemma isRateLimited_False_state:
  "\<not> fst (isRateLimited w m a) \<Longrightarrow>
   \<exists>T. (T = Date_now1 w \<or> T = Date_now2 w) \<and>
       snd (isRateLimited w m a) = m\<lparr>rateLimiter := (rateLimiter m)(rate_key a \<mapsto> T)\<rparr>"
  by (auto simp: isRateLimited_def Let_def split: option.splits if_splits)

lemma addToHistory_history:
  "alertHistory (addToHistory m a) =
     (if length (alertHistory m) < maxHistorySize then a # alertHistory m
      else a # butlast (alertHistory m))"
  by (auto simp: addToHistory_def Let_def maxHistorySize_def)

lemma addToHistory_other [simp]:
  "rateLimiter (addToHistory m a) = rateLimiter m"
  "channels_m (addToHistory m a) = channels_m m"
  by (simp_all add: addToHistory_def Let_def)

lemma addToHistory_take:
  "length (alertHistory m) \<le> maxHistorySize \<Longrightarrow>
   alertHistory (addToHistory m a) = take maxHistorySize (a # alertHistory m)"
  by (simp add: addToHistory_history maxHistorySize_def butlast_conv_take)

lemma send_limited:
  "fst (isRateLimited w m (stamp w a)) \<Longrightarrow>
   send w m a = Inr \<lparr>manager = m, stamped = stamp w a,
                     events = [Log Warn ''Alert rate limited'']\<rparr>"
  by (cases "isRateLimited w m (stamp w a)")
     (use isRateLimited_True_state [of w m "stamp w a"] in \<open>simp add: send_def\<close>)

lemma send_not_limited:
  "\<not> fst (isRateLimited w m (stamp w a)) \<Longrightarrow>
   send w m a =
     Inr \<lparr>manager = addToHistory (snd (isRateLimited w m (stamp w a))) (stamp w a),
          stamped = stamp w a,
          events = concat (map fst (dispatch w
                      (addToHistory (snd (isRateLimited w m (stamp w a))) (stamp w a))
                      (stamp w a) (resolve_channels a)))
                   @ [Log Info ''Alert sent'']\<rparr>"
  by (cases "isRateLimited w m (stamp w a)") (simp add: send_def allSettled_def Let_def)

lemma send_total: "\<exists>r. send w m a = Inr r"
  by (cases "fst (isRateLimited w m (stamp w a))") (simp_all add: send_limited send_not_limited)

lemma send_stamped: "send w m a = Inr r \<Longrightarrow> stamped r = stamp w a"
  by (cases "fst (isRateLimited w m (stamp w a))") (auto simp: send_limited send_not_limited)

lemma send_manager_limited:
  assumes "send w m a = Inr r" and "fst (isRateLimited w m (stamp w a))"
  shows "manager r = m"
  using assms by (auto simp: send_limited)

lemma send_history_not_limited:
  assumes "send w m a = Inr r" and "\<not> fst (isRateLimited w m (stamp w a))"
  shows "alertHistory (manager r) =
           (if length (alertHistory m) < maxHistorySize then stamp w a # alertHistory m
            else stamp w a # butlast (alertHistory m))"
proof -
  from isRateLimited_False_state [OF assms(2)] obtain T where
    st: "snd (isRateLimited w m (stamp w a)) =
           m\<lparr>rateLimiter := (rateLimiter m)(rate_key (stamp w a) \<mapsto> T)\<rparr>"
    by blast
  from assms have "manager r = addToHistory (snd (isRateLimited w m (stamp w a))) (stamp w a)"
    by (auto simp: send_not_limited)
  then show ?thesis by (simp add: addToHistory_history st)
qed

lemma send_channels_m:
  assumes "send w m a = Inr r"
  shows "channels_m (manager r) = channels_m m"
proof (cases "fst (isRateLimited w m (stamp w a))")
  case True
  then show ?thesis by (simp add: send_manager_limited [OF assms])
next
  case False
  from isRateLimited_False_state [OF False] obtain T where
    "snd (isRateLimited w m (stamp w a)) =
       m\<lparr>rateLimiter := (rateLimiter m)(rate_key (stamp w a) \<mapsto> T)\<rparr>"
    by blast
  with assms False show ?thesis by (auto simp: send_not_limited)
qed

lemma send_rateLimiter_other:
  assumes "send w m a = Inr r" and "k \<noteq> rate_key a"
  shows "rateLimiter (manager r) k = rateLimiter m k"
proof (cases "fst (isRateLimited w m (stamp w a))")
  case True
  then show ?thesis by (simp add: send_manager_limited [OF assms(1)])
next
  case False
  from isRateLimited_False_state [OF False] obtain T where
    "snd (isRateLimited w m (stamp w a)) =
       m\<lparr>rateLimiter := (rateLimiter m)(rate_key (stamp w a) \<mapsto> T)\<rparr>"
    by blast
  with assms False show ?thesis by (auto simp: send_not_limited)
qed

lemma send_delivered:
  assumes "\<not> fst (isRateLimited w m (stamp w a))"
  shows "\<exists>r. send w m a = Inr r \<and>
           hd (alertHistory (manager r)) = stamp w a \<and>
           events r = concat (map fst (dispatch w (manager r) (stamp w a) (resolve_channels a)))
                      @ [Log Info ''Alert sent'']"
  using assms by (simp add: send_not_limited addToHistory_history)

lemma send_after_update:
  assumes "\<not> fst (isRateLimited w m (stamp w a))"
  shows "\<exists>r T. send w m a = Inr r \<and> rateLimiter (manager r) (rate_key a) = Some T \<and>
           (T = Date_now1 w \<or> T = Date_now2 w)"
proof -
  from isRateLimited_False_state [OF assms] obtain T where
    T: "T = Date_now1 w \<or> T = Date_now2 w" and
    st: "snd (isRateLimited w m (stamp w a)) =
           m\<lparr>rateLimiter := (rateLimiter m)(rate_key (stamp w a) \<mapsto> T)\<rparr>"
    by blast
  show ?thesis using assms T by (auto simp: send_not_limited st)
qed

lemma at_time_fields [simp]:
  "new_Date (at_time t) = t"
  "Date_now1 (at_time t) = t"
  "Date_now2 (at_time t) = t"
  "adapter_fails (at_time t) i = None"
  by (simp_all add: at_time_def)

lemma first_fails_at_fields [simp]:
  "new_Date (first_fails_at t) = t"
  "Date_now1 (first_fails_at t) = t"
  "Date_now2 (first_fails_at t) = t"
  "adapter_fails (first_fails_at t) i = (if i = 0 then Some ''connect ECONNREFUSED'' else None)"
  by (simp_all add: first_fails_at_def)

subsection \<open>The fan-out\<close>

lemma dispatch_nth:
  "i < length chans \<Longrightarrow>
   dispatch w m a chans ! i = sendToChannel (adapter_fails w i) m a (chans ! i)"
  by (simp add: dispatch_def)

lemma length_dispatch [simp]: "length (dispatch w m a chans) = length chans"
  by (simp add: dispatch_def)

lemma dispatch_events_subset:
  assumes "i < length chans"
  shows "set (fst (sendToChannel (adapter_fails w i) m a (chans ! i)))
           \<subseteq> set (concat (map fst (dispatch w m a chans)))"
proof -
  have "dispatch w m a chans ! i \<in> set (dispatch w m a chans)"
    using assms by simp
  then have "sendToChannel (adapter_fails w i) m a (chans ! i) \<in> set (dispatch w m a chans)"
    using assms by (simp add: dispatch_nth)
  then show ?thesis by auto
qed

lemma dispatch_events_elim:
  assumes "e \<in> set (concat (map fst (dispatch w m a chans)))"
  shows "\<exists>i < length chans. e \<in> set (fst (sendToChannel (adapter_fails w i) m a (chans ! i)))"
proof -
  from assms obtain p where p: "p \<in> set (dispatch w m a chans)" and e: "e \<in> set (fst p)"
    by auto
  from p obtain i where "i < length (dispatch w m a chans)" and "dispatch w m a chans ! i = p"
    by (auto simp: in_set_conv_nth)
  then show ?thesis using e by (auto simp: dispatch_nth)
qed

lemma sendToChannel_settles: "snd (sendToChannel outcome m a c) = Inr ()"
  by (cases c; cases outcome)
     (auto simp: sendToChannel_def sendToSlack_def sendToEmail_def sendToPagerDuty_def
        sendToConsole_def sendToWebhook_def split: option.splits)

lemma sendToChannel_Invoked_iff:
  "Invoked c' al \<in> set (fst (sendToChannel outcome m a c)) \<longleftrightarrow>
     c' = c \<and> al = a \<and> (\<exists>cc. channels_m m c = Some cc \<and> enabled cc)"
  by (cases c; cases outcome)
     (auto simp: sendToChannel_def sendToSlack_def sendToEmail_def sendToPagerDuty_def
        sendToConsole_def sendToWebhook_def split: option.splits)

lemma sendToChannel_failure_logged:
  "channels_m m c = Some cc \<Longrightarrow> enabled cc \<Longrightarrow> outcome \<noteq> None \<Longrightarrow>
   Log Error (''Failed to send alert to '' @ channel_name c)
     \<in> set (fst (sendToChannel outcome m a c))"
  by (cases c; cases outcome)
     (auto simp: sendToChannel_def sendToSlack_def sendToEmail_def sendToPagerDuty_def
        sendToConsole_def sendToWebhook_def split: option.splits)

subsection \<open>The history of a run\<close>

lemma new_AlertManager_fields [simp]:
  "alertHistory (new_AlertManager env) = []"
  "rateLimiter (new_AlertManager env) = Map.empty"
  by (simp_all add: new_AlertManager_def initializeChannels_def Let_def)

lemma new_AlertManager_console:
  "channels_m (new_AlertManager env) CONSOLE =
     Some \<lparr>enabled = (env ''NODE_ENV'' = Some ''development''), config = []\<rparr>"
  by (simp add: new_AlertManager_def initializeChannels_def Let_def)

lemma sends_total: "\<exists>m'. sends m calls = Inr m'"
proof (induction calls arbitrary: m)
  case Nil
  show ?case by simp
next
  case (Cons c calls)
  obtain w a where c: "c = (w, a)" by (cases c)
  from send_total obtain r where "send w m a = Inr r" by blast
  with Cons.IH [of "manager r"] show ?case by (simp add: c)
qed

lemma send_history:
  assumes "send w m a = Inr r" and "length (alertHistory m) \<le> maxHistorySize"
  shows "alertHistory (manager r) =
     (if fst (isRateLimited w m (stamp w a)) then alertHistory m
      else take maxHistorySize (stamp w a # alertHistory m))"
proof (cases "fst (isRateLimited w m (stamp w a))")
  case True
  then show ?thesis by (simp add: send_manager_limited [OF assms(1)])
next
  case False
  with assms(2) show ?thesis
    by (simp add: send_history_not_limited [OF assms(1)] maxHistorySize_def butlast_conv_take)
qed

lemma take_after_cons:
  "take n (xs @ take n (y # ys)) = take n ((xs @ [y]) @ ys)"
  by (simp add: min_def)

lemma history_of_run:
  "sends m calls = Inr m' \<Longrightarrow> length (alertHistory m) \<le> maxHistorySize \<Longrightarrow>
   alertHistory m' = take maxHistorySize (rev (recorded m calls) @ alertHistory m)"
proof (induction calls arbitrary: m)
  case Nil
  then show ?case by simp
next
  case (Cons c calls)
  obtain w a where c: "c = (w, a)" by (cases c)
  from send_total obtain r where r: "send w m a = Inr r" by blast
  from Cons.prems(1) have run: "sends (manager r) calls = Inr m'"
    by (simp add: c r)
  have h: "alertHistory (manager r) =
     (if fst (isRateLimited w m (stamp w a)) then alertHistory m
      else take maxHistorySize (stamp w a # alertHistory m))"
    by (rule send_history [OF r Cons.prems(2)])
  have len: "length (alertHistory (manager r)) \<le> maxHistorySize"
    using Cons.prems(2) by (simp add: h)
  from Cons.IH [OF run len]
  have ih: "alertHistory m' =
      take maxHistorySize (rev (recorded (manager r) calls) @ alertHistory (manager r))" .
  show ?case
  proof (cases "fst (isRateLimited w m (stamp w a))")
    case True
    then show ?thesis by (simp add: ih h c r)
  next
    case False
    then show ?thesis
      by (simp add: ih h c r send_stamped [OF r] take_after_cons)
  qed
qed

lemma history_of_fresh_run:
  assumes "sends (new_AlertManager env) calls = Inr m'"
  shows "alertHistory m' = take 100 (rev (recorded (new_AlertManager env) calls))"
  using history_of_run [OF assms] by (simp add: maxHistorySize_def)

subsection \<open>Reachable states\<close>

lemma send_history_nonempty:
  assumes "send w m a = Inr r"
    and "rateLimiter m (rate_key a) \<noteq> None \<longrightarrow> alertHistory m \<noteq> []"
  shows "alertHistory (manager r) \<noteq> []"
proof (cases "fst (isRateLimited w m (stamp w a))")
  case True
  then have "rateLimiter m (rate_key a) \<noteq> None"
    by (auto simp: isRateLimited_True_iff)
  with assms(2) show ?thesis
    by (simp add: send_manager_limited [OF assms(1) True])
next
  case False
  show ?thesis
    by (simp add: send_history_not_limited [OF assms(1) False])
qed

lemma send_keeps_nonempty:
  assumes "send w m a = Inr r" and "alertHistory m \<noteq> []"
  shows "alertHistory (manager r) \<noteq> []"
  using assms by (intro send_history_nonempty [of w m a r]) simp_all

lemma reachable_limiter_backed:
  "reachable m \<Longrightarrow> rateLimiter m k \<noteq> None \<longrightarrow> alertHistory m \<noteq> []"
proof (induction arbitrary: k rule: reachable.induct)
  case (constructed env)
  show ?case by simp
next
  case (after_send m w alert r)
  show ?case
  proof (cases "alertHistory m = []")
    case True
    with after_send.IH have "rateLimiter m (rate_key alert) = None" by blast
    then have "\<not> fst (isRateLimited w m (stamp w alert))"
      by (simp add: isRateLimited_True_iff)
    then show ?thesis
      by (simp add: send_history_not_limited [OF after_send.hyps(2)])
  next
    case False
    with send_keeps_nonempty [OF after_send.hyps(2)] show ?thesis by simp
  qed
next
  case (after_clearHistory m)
  show ?case by (simp add: clearHistory_def)
next
  case (after_configureChannel m channel cc)
  then show ?case by (simp add: configureChannel_def)
qed

lemma hd_in_butlast: "2 \<le> length xs \<Longrightarrow> hd xs \<in> set (butlast xs)"
  by (cases xs) (auto simp: Suc_le_eq)

lemma send_keeps_head:
  assumes "send w m a = Inr r" and "alertHistory m \<noteq> []"
  shows "hd (alertHistory m) \<in> set (alertHistory (manager r))"
proof (cases "fst (isRateLimited w m (stamp w a))")
  case True
  with assms(2) show ?thesis
    by (simp add: send_manager_limited [OF assms(1) True])
next
  case False
  show ?thesis
  proof (cases "length (alertHistory m) < maxHistorySize")
    case True
    with assms(2) show ?thesis
      by (simp add: send_history_not_limited [OF assms(1) False])
  next
    case big: False
    then have "2 \<le> length (alertHistory m)" by (simp add: maxHistorySize_def)
    from hd_in_butlast [OF this] big show ?thesis
      by (simp add: send_history_not_limited [OF assms(1) False])
  qed
qed

subsection \<open>What a send shows outside\<close>

lemma channel_name_inj: "channel_name c = channel_name c' \<Longrightarrow> c = c'"
  by (cases c; cases c') simp_all

lemma sendToChannel_skipped_iff:
  "Log Debug (''Channel '' @ channel_name c' @ '' not enabled, skipping'')
     \<in> set (fst (sendToChannel outcome m a c)) \<longleftrightarrow>
     c' = c \<and> \<not> (\<exists>cc. channels_m m c = Some cc \<and> enabled cc)"
  by (cases c; cases c'; cases outcome)
     (auto simp: sendToChannel_def sendToSlack_def sendToEmail_def sendToPagerDuty_def
        sendToConsole_def sendToWebhook_def split: option.splits)

lemma dispatch_event_iff:
  "e \<in> set (concat (map fst (dispatch w m a chans))) \<longleftrightarrow>
     (\<exists>i < length chans. e \<in> set (fst (sendToChannel (adapter_fails w i) m a (chans ! i))))"
  using dispatch_events_elim [of e w m a chans] dispatch_events_subset [of _ chans w m a]
  by blast

lemma send_Invoked_iff:
  assumes "send w m a = Inr r" and "\<not> fst (isRateLimited w m (stamp w a))"
  shows "Invoked c al \<in> set (events r) \<longleftrightarrow>
           al = stamp w a \<and> c \<in> set (resolve_channels a) \<and>
           (\<exists>cc. channels_m m c = Some cc \<and> enabled cc)"
proof -
  from send_delivered [OF assms(2)] assms(1)
  have ev: "events r = concat (map fst (dispatch w (manager r) (stamp w a) (resolve_channels a)))
                      @ [Log Info ''Alert sent'']"
    by simp
  have ch: "channels_m (manager r) = channels_m m"
    by (rule send_channels_m [OF assms(1)])
  have "Invoked c al \<in> set (events r) \<longleftrightarrow>
          (\<exists>i < length (resolve_channels a).
              c = resolve_channels a ! i \<and> al = stamp w a \<and>
              (\<exists>cc. channels_m m (resolve_channels a ! i) = Some cc \<and> enabled cc))"
    unfolding ev set_append Un_iff dispatch_event_iff
    by (simp add: sendToChannel_Invoked_iff ch)
  also have "\<dots> \<longleftrightarrow> al = stamp w a \<and> c \<in> set (resolve_channels a) \<and>
           (\<exists>cc. channels_m m c = Some cc \<and> enabled cc)"
    by (auto simp: in_set_conv_nth)
  finally show ?thesis .
qed

lemma send_skipped_iff:
  assumes "send w m a = Inr r" and "\<not> fst (isRateLimited w m (stamp w a))"
  shows "Log Debug (''Channel '' @ channel_name c @ '' not enabled, skipping'') \<in> set (events r)
         \<longleftrightarrow> c \<in> set (resolve_channels a) \<and>
             \<not> (\<exists>cc. channels_m m c = Some cc \<and> enabled cc)"
proof -
  from send_delivered [OF assms(2)] assms(1)
  have ev: "events r = concat (map fst (dispatch w (manager r) (stamp w a) (resolve_channels a)))
                      @ [Log Info ''Alert sent'']"
    by simp
  have ch: "channels_m (manager r) = channels_m m"
    by (rule send_channels_m [OF assms(1)])
  have "Log Debug (''Channel '' @ channel_name c @ '' not enabled, skipping'') \<in> set (events r)
        \<longleftrightarrow>
          (\<exists>i < length (resolve_channels a).
              c = resolve_channels a ! i \<and>
              \<not> (\<exists>cc. channels_m m (resolve_channels a ! i) = Some cc \<and> enabled cc))"
    unfolding ev set_append Un_iff dispatch_event_iff sendToChannel_skipped_iff ch
    by auto
  also have "\<dots> \<longleftrightarrow> c \<in> set (resolve_channels a) \<and>
             \<not> (\<exists>cc. channels_m m c = Some cc \<and> enabled cc)"
    by (auto simp: in_set_conv_nth)
  finally show ?thesis .
qed

lemma send_rateLimiter_key:
  assumes "send w m a = Inr r" and "\<not> fst (isRateLimited w m (stamp w a))"
  shows "\<exists>T. rateLimiter (manager r) (title a @ '':'' @ severity a) = Some T \<and>
             (T = Date_now1 w \<or> T = Date_now2 w)"
  using send_after_update [OF assms(2)] assms(1) by (auto simp: rate_key_def)


lemma sends_channels_m:
  "sends m calls = Inr m' \<Longrightarrow> channels_m m' = channels_m m"
proof (induction calls arbitrary: m)
  case Nil
  then show ?case by simp
next
  case (Cons c calls)
  obtain w a where c: "c = (w, a)" by (cases c)
  from send_total obtain r where r: "send w m a = Inr r" by blast
  from Cons.prems have "sends (manager r) calls = Inr m'" by (simp add: c r)
  from Cons.IH [OF this] send_channels_m [OF r] show ?case by simp
qed

lemma send_passes:
  assumes "\<not> fst (isRateLimited w m (stamp w a))"
  shows "\<exists>r T. send w m a = Inr r \<and>
           alertHistory (manager r) =
             stamp w a # (if length (alertHistory m) < 100 then alertHistory m
                          else butlast (alertHistory m)) \<and>
           (\<forall>c al. Invoked c al \<in> set (events r) \<longleftrightarrow>
                     al = stamp w a \<and> c \<in> set (resolve_channels a) \<and>
                     (\<exists>cc. channels_m m c = Some cc \<and> enabled cc)) \<and>
           rateLimiter (manager r) (title a @ '':'' @ severity a) = Some T \<and>
           (T = Date_now1 w \<or> T = Date_now2 w) \<and>
           channels_m (manager r) = channels_m m"
proof -
  from send_total obtain r where r: "send w m a = Inr r" by blast
  from send_rateLimiter_key [OF r assms] obtain T where
    T: "rateLimiter (manager r) (title a @ '':'' @ severity a) = Some T"
       "T = Date_now1 w \<or> T = Date_now2 w"
    by blast
  have h: "alertHistory (manager r) =
             stamp w a # (if length (alertHistory m) < 100 then alertHistory m
                          else butlast (alertHistory m))"
    using send_history_not_limited [OF r assms] by (simp add: maxHistorySize_def)
  have i: "\<forall>c al. Invoked c al \<in> set (events r) \<longleftrightarrow>
                     al = stamp w a \<and> c \<in> set (resolve_channels a) \<and>
                     (\<exists>cc. channels_m m c = Some cc \<and> enabled cc)"
    using send_Invoked_iff [OF r assms] by blast
  from r h i T send_channels_m [OF r] show ?thesis by blast
qed


lemma dev_env_slack:
  "\<exists>cs. channels_m (new_AlertManager dev_env) SLACK = Some cs \<and> enabled cs"
  by (simp add: new_AlertManager_def initializeChannels_def Let_def dev_env_def)

lemma dev_env_others:
  "channels_m (new_AlertManager dev_env) PAGERDUTY = None"
  "channels_m (new_AlertManager dev_env) EMAIL = None"
  "channels_m (new_AlertManager dev_env) WEBHOOK = None"
  by (simp_all add: new_AlertManager_def initializeChannels_def Let_def dev_env_def)


lemma two_alert_run:
  "\<exists>m' r1. sends (new_AlertManager dev_env) [(at_time 1000, disk_alert), (at_time 2000, both_alert)]
             = Inr m' \<and>
           send (at_time 1000) (new_AlertManager dev_env) disk_alert = Inr r1 \<and>
           recorded (new_AlertManager dev_env)
             [(at_time 1000, disk_alert), (at_time 2000, both_alert)] = [stamped r1, both_alert] \<and>
           alertHistory m' = [both_alert, stamped r1]"
proof -
  let ?calls = "[(at_time 1000, disk_alert), (at_time 2000, both_alert)]"
  have free1: "\<not> fst (isRateLimited (at_time 1000) (new_AlertManager dev_env)
                        (stamp (at_time 1000) disk_alert))"
    by (simp add: isRateLimited_True_iff)
  from send_total obtain r1 where
    r1: "send (at_time 1000) (new_AlertManager dev_env) disk_alert = Inr r1"
    by blast
  have lim: "rateLimiter (manager r1) (rate_key both_alert) = None"
    using send_rateLimiter_other [OF r1, of "rate_key both_alert"]
    by (simp add: rate_key_def both_alert_def disk_alert_def)
  then have free2: "\<not> fst (isRateLimited (at_time 2000) (manager r1)
                        (stamp (at_time 2000) both_alert))"
    by (simp add: isRateLimited_True_iff)
  from send_total obtain r2 where r2: "send (at_time 2000) (manager r1) both_alert = Inr r2"
    by blast
  have st: "stamp (at_time 2000) both_alert = both_alert"
    by (simp add: stamp_def both_alert_def)
  have rec: "recorded (new_AlertManager dev_env) ?calls = [stamped r1, both_alert]"
    using free1 free2 by (simp add: r1 r2 send_stamped [OF r2] st)
  from sends_total obtain m' where run: "sends (new_AlertManager dev_env) ?calls = Inr m'"
    by blast
  from history_of_fresh_run [OF run] rec have "alertHistory m' = [both_alert, stamped r1]"
    by simp
  with run r1 rec show ?thesis by blast
qed

section \<open>The claims about the alert manager\<close>

text \<open>
  C5: the channels \<open>send\<close> dispatches to are the alert's own \<open>channels\<close> list when
  it has one; otherwise they depend on the severity only: critical gives slack,
  pagerduty and email, high gives slack and email, warning gives slack, and info and
  any other value give console. What a call shows outside is fixed by that list: an
  adapter is invoked, and then with the alert as stamped, exactly for the channels of the
  list that are configured and enabled, and the skip is logged exactly for the channels
  of the list that are not; a suppressed call does neither.
\<close>

theorem send_target_channels:
  "(let target = (case channels alert of
                    Some cs \<Rightarrow> cs
                  | None \<Rightarrow>
                      if severity alert = ''critical'' then [SLACK, PAGERDUTY, EMAIL]
                      else if severity alert = ''high'' then [SLACK, EMAIL]
                      else if severity alert = ''warning'' then [SLACK]
                      else [CONSOLE])
    in resolve_channels alert = target \<and>
       (\<exists>r. send w m alert = Inr r \<and>
          (\<forall>c al. Invoked c al \<in> set (events r) \<longleftrightarrow>
                    \<not> fst (isRateLimited w m (stamp w alert)) \<and> al = stamp w alert \<and>
                    c \<in> set target \<and> (\<exists>cc. channels_m m c = Some cc \<and> enabled cc)) \<and>
          (\<forall>c. Log Debug (''Channel '' @ channel_name c @ '' not enabled, skipping'')
                   \<in> set (events r) \<longleftrightarrow>
                 \<not> fst (isRateLimited w m (stamp w alert)) \<and>
                 c \<in> set target \<and> \<not> (\<exists>cc. channels_m m c = Some cc \<and> enabled cc))))"
proof -
  have t: "resolve_channels alert =
      (case channels alert of
         Some cs \<Rightarrow> cs
       | None \<Rightarrow>
           if severity alert = ''critical'' then [SLACK, PAGERDUTY, EMAIL]
           else if severity alert = ''high'' then [SLACK, EMAIL]
           else if severity alert = ''warning'' then [SLACK]
           else [CONSOLE])"
    by (simp add: resolve_channels_def getDefaultChannels_def CRITICAL_def HIGH_def WARNING_def
          split: option.splits)
  from send_total obtain r where r: "send w m alert = Inr r" by blast
  have "(\<forall>c al. Invoked c al \<in> set (events r) \<longleftrightarrow>
                    \<not> fst (isRateLimited w m (stamp w alert)) \<and> al = stamp w alert \<and>
                    c \<in> set (resolve_channels alert) \<and>
                    (\<exists>cc. channels_m m c = Some cc \<and> enabled cc)) \<and>
        (\<forall>c. Log Debug (''Channel '' @ channel_name c @ '' not enabled, skipping'')
                   \<in> set (events r) \<longleftrightarrow>
                 \<not> fst (isRateLimited w m (stamp w alert)) \<and>
                 c \<in> set (resolve_channels alert) \<and>
                 \<not> (\<exists>cc. channels_m m c = Some cc \<and> enabled cc))"
  proof (cases "fst (isRateLimited w m (stamp w alert))")
    case True
    with r show ?thesis by (auto simp: send_limited)
  next
    case False
    with send_Invoked_iff [OF r False] send_skipped_iff [OF r False] show ?thesis
      by blast
  qed
  with r show ?thesis unfolding Let_def t [symmetric] by blast
qed

theorem send_target_channels_witness:
  "resolve_channels page_alert = [SLACK, PAGERDUTY, EMAIL] \<and>
   (\<exists>r. send (at_time 1000) (new_AlertManager dev_env) page_alert = Inr r \<and>
        Invoked SLACK (stamp (at_time 1000) page_alert) \<in> set (events r) \<and>
        Log Debug ''Channel pagerduty not enabled, skipping'' \<in> set (events r) \<and>
        Log Debug ''Channel email not enabled, skipping'' \<in> set (events r) \<and>
        Invoked CONSOLE (stamp (at_time 1000) page_alert) \<notin> set (events r)) \<and>
   resolve_channels both_alert = [SLACK, CONSOLE] \<and>
   (\<exists>r. send (at_time 1000) (new_AlertManager dev_env) both_alert = Inr r \<and>
        Invoked SLACK both_alert \<in> set (events r) \<and>
        Invoked CONSOLE both_alert \<in> set (events r) \<and>
        Invoked PAGERDUTY both_alert \<notin> set (events r))"
proof -
  let ?m = "new_AlertManager dev_env" and ?w = "at_time 1000"
  from dev_env_slack obtain cs where cs: "channels_m ?m SLACK = Some cs" "enabled cs"
    by blast
  have console: "channels_m ?m CONSOLE = Some \<lparr>enabled = True, config = []\<rparr>"
    by (simp add: new_AlertManager_console dev_env_def)
  have freep: "\<not> fst (isRateLimited ?w ?m (stamp ?w page_alert))"
    and freeb: "\<not> fst (isRateLimited ?w ?m (stamp ?w both_alert))"
    by (simp_all add: isRateLimited_True_iff)
  have stb: "stamp ?w both_alert = both_alert"
    by (simp add: stamp_def both_alert_def)
  have valp: "channels page_alert = None" "severity page_alert = ''critical''"
    and valb: "channels both_alert = Some [SLACK, CONSOLE]"
    by (simp_all add: page_alert_def both_alert_def)
  note instp = send_target_channels [of page_alert ?w ?m, unfolded Let_def]
  note bodyp = instp [THEN conjunct2, folded instp [THEN conjunct1]]
  from instp [THEN conjunct1] have tp: "resolve_channels page_alert = [SLACK, PAGERDUTY, EMAIL]"
    by (simp add: valp)
  from bodyp obtain rp where
    rp: "send ?w ?m page_alert = Inr rp" and
    ip: "\<forall>c al. Invoked c al \<in> set (events rp) \<longleftrightarrow>
                    \<not> fst (isRateLimited ?w ?m (stamp ?w page_alert)) \<and> al = stamp ?w page_alert \<and>
                    c \<in> set (resolve_channels page_alert) \<and>
                    (\<exists>cc. channels_m ?m c = Some cc \<and> enabled cc)" and
    dp: "\<forall>c. Log Debug (''Channel '' @ channel_name c @ '' not enabled, skipping'')
                   \<in> set (events rp) \<longleftrightarrow>
                 \<not> fst (isRateLimited ?w ?m (stamp ?w page_alert)) \<and>
                 c \<in> set (resolve_channels page_alert) \<and>
                 \<not> (\<exists>cc. channels_m ?m c = Some cc \<and> enabled cc)"
    by (elim exE conjE)
  from ip freep cs have p1: "Invoked SLACK (stamp ?w page_alert) \<in> set (events rp)"
    by (simp add: tp)
  from ip have p4: "Invoked CONSOLE (stamp ?w page_alert) \<notin> set (events rp)"
    by (simp add: tp)
  from dp [rule_format, of PAGERDUTY] freep
  have p2: "Log Debug ''Channel pagerduty not enabled, skipping'' \<in> set (events rp)"
    by (simp add: dev_env_others tp)
  from dp [rule_format, of EMAIL] freep
  have p3: "Log Debug ''Channel email not enabled, skipping'' \<in> set (events rp)"
    by (simp add: dev_env_others tp)
  note instb = send_target_channels [of both_alert ?w ?m, unfolded Let_def]
  note bodyb = instb [THEN conjunct2, folded instb [THEN conjunct1]]
  from instb [THEN conjunct1] have tb: "resolve_channels both_alert = [SLACK, CONSOLE]"
    by (simp add: valb)
  from bodyb obtain rb where
    rb: "send ?w ?m both_alert = Inr rb" and
    ib: "\<forall>c al. Invoked c al \<in> set (events rb) \<longleftrightarrow>
                    \<not> fst (isRateLimited ?w ?m (stamp ?w both_alert)) \<and> al = stamp ?w both_alert \<and>
                    c \<in> set (resolve_channels both_alert) \<and>
                    (\<exists>cc. channels_m ?m c = Some cc \<and> enabled cc)"
    by (elim exE conjE)
  from ib freeb cs have b1: "Invoked SLACK both_alert \<in> set (events rb)"
    by (simp add: stb tb)
  from ib freeb console have b2: "Invoked CONSOLE both_alert \<in> set (events rb)"
    by (simp add: stb tb)
  from ib have b3: "Invoked PAGERDUTY both_alert \<notin> set (events rb)"
    by (simp add: tb)
  from tp rp p1 p2 p3 p4 tb rb b1 b2 b3 show ?thesis by blast
qed

text \<open>
  C3: after every sequence of \<open>send\<close> calls on a manager as constructed, the history
  holds at most 100 alerts: the newest 100 of the recorded ones, newest first. When an
  alert is added to a history of 100, the last one, which is the oldest, is dropped.
\<close>

theorem history_bounded_oldest_evicted:
  "(\<exists>m'. sends (new_AlertManager env) calls = Inr m' \<and>
          length (alertHistory m') \<le> 100 \<and>
          alertHistory m' = take 100 (rev (recorded (new_AlertManager env) calls)))
   \<and> (length (alertHistory m) = 100 \<longrightarrow>
          alertHistory (addToHistory m a) = a # butlast (alertHistory m) \<and>
          length (alertHistory (addToHistory m a)) = 100)"
proof -
  from sends_total obtain m' where run: "sends (new_AlertManager env) calls = Inr m'"
    by blast
  have h: "alertHistory m' = take 100 (rev (recorded (new_AlertManager env) calls))"
    by (rule history_of_fresh_run [OF run])
  then have "length (alertHistory m') \<le> 100" by simp
  with run h have first: "\<exists>m'. sends (new_AlertManager env) calls = Inr m' \<and>
          length (alertHistory m') \<le> 100 \<and>
          alertHistory m' = take 100 (rev (recorded (new_AlertManager env) calls))"
    by blast
  have second: "length (alertHistory m) = 100 \<longrightarrow>
          alertHistory (addToHistory m a) = a # butlast (alertHistory m) \<and>
          length (alertHistory (addToHistory m a)) = 100"
    by (simp add: addToHistory_history maxHistorySize_def)
  from first second show ?thesis by blast
qed

theorem history_bounded_oldest_evicted_witness:
  "length (alertHistory full_manager) = 100 \<and>
   alertHistory (addToHistory full_manager both_alert)
     = both_alert # replicate 99 disk_alert \<and>
   (\<exists>m'. sends (new_AlertManager dev_env)
            [(at_time 1000, disk_alert), (at_time 2000, disk_alert)] = Inr m' \<and>
         length (alertHistory m') \<le> 100)"
proof -
  have len: "length (alertHistory full_manager) = 100"
    by (simp add: full_manager_def)
  have "butlast (alertHistory full_manager) = replicate 99 disk_alert"
    by (simp add: full_manager_def butlast_conv_take)
  with len history_bounded_oldest_evicted
      [of dev_env "[(at_time 1000, disk_alert), (at_time 2000, disk_alert)]"
          full_manager both_alert]
  show ?thesis by auto
qed

text \<open>
  C10, as amended: for every integer limit \<open>n\<close> and every history,
  \<open>getHistory(n)\<close> returns a prefix of the history: for \<open>n \<ge> 0\<close> its first \<open>n\<close>
  alerts, so at most \<open>n\<close>, and for a negative \<open>n\<close> all but its last \<open>-n\<close> alerts.
  Without a limit it returns at most 10. It returns the manager unchanged. After a run
  on a manager as constructed the result for \<open>n \<ge> 0\<close> is the newest recorded alerts,
  the most recently recorded one first.
\<close>

theorem getHistory_newest_first:
  "fst (getHistory m (Some n)) =
     take (if 0 \<le> n then nat n else length (alertHistory m) - nat (- n)) (alertHistory m)
   \<and> (0 \<le> n \<longrightarrow> length (fst (getHistory m (Some n))) \<le> nat n)
   \<and> getHistory m None = getHistory m (Some 10)
   \<and> length (fst (getHistory m None)) \<le> 10
   \<and> snd (getHistory m limit) = m
   \<and> (\<exists>m'. sends (new_AlertManager env) calls = Inr m' \<and>
         (0 \<le> n \<longrightarrow>
            fst (getHistory m' (Some n)) =
              take (min (nat n) 100) (rev (recorded (new_AlertManager env) calls))))"
proof -
  have slice: "slice0 xs e = take (if 0 \<le> e then nat e else length xs - nat (- e)) xs"
    for xs :: "Alert list" and e
  proof (cases "0 \<le> e")
    case True
    then show ?thesis by (simp add: slice0_def Let_def min_def)
  next
    case False
    then have "nat (max (int (length xs) + e) 0) = length xs - nat (- e)"
      by arith
    with False show ?thesis by (simp add: slice0_def Let_def)
  qed
  have z: "fst (getHistory m (Some n)) =
     take (if 0 \<le> n then nat n else length (alertHistory m) - nat (- n)) (alertHistory m)"
    by (simp only: getHistory_def slice fst_conv option.case)
  have a: "0 \<le> n \<longrightarrow> length (fst (getHistory m (Some n))) \<le> nat n"
    by (simp add: z)
  have b: "getHistory m None = getHistory m (Some 10)"
    by (simp add: getHistory_def)
  have c: "length (fst (getHistory m None)) \<le> 10"
    by (simp add: getHistory_def slice)
  have d: "snd (getHistory m limit) = m"
    by (simp add: getHistory_def)
  from sends_total obtain m' where run: "sends (new_AlertManager env) calls = Inr m'"
    by blast
  have h: "alertHistory m' = take 100 (rev (recorded (new_AlertManager env) calls))"
    by (rule history_of_fresh_run [OF run])
  have e: "0 \<le> n \<longrightarrow>
            fst (getHistory m' (Some n)) =
              take (min (nat n) 100) (rev (recorded (new_AlertManager env) calls))"
    by (simp add: getHistory_def slice h)
  from z a b c d run e show ?thesis by blast
qed

theorem getHistory_newest_first_witness:
  "(0::int) \<le> 1 \<and>
   fst (getHistory full_manager (Some 1)) = [disk_alert] \<and>
   length (fst (getHistory full_manager (Some (- 1)))) = 99 \<and>
   (\<exists>m'. sends (new_AlertManager dev_env)
            [(at_time 1000, disk_alert), (at_time 2000, both_alert)] = Inr m' \<and>
         fst (getHistory m' (Some 1)) = [both_alert])"
proof -
  let ?calls = "[(at_time 1000, disk_alert), (at_time 2000, both_alert)]"
  note inst = getHistory_newest_first [of full_manager 1 None dev_env ?calls]
  note neg = getHistory_newest_first [of full_manager "- 1" None dev_env ?calls]
  have one: "fst (getHistory full_manager (Some 1)) = [disk_alert]"
    using inst by (simp add: full_manager_def)
  have ninety: "length (fst (getHistory full_manager (Some (- 1)))) = 99"
    using neg by (simp add: full_manager_def)
  from two_alert_run obtain r1 :: send_result where
    "recorded (new_AlertManager dev_env) ?calls = [stamped r1, both_alert]"
    by blast
  with inst one ninety show ?thesis by auto
qed

text \<open>
  The claim as stated fails for a negative limit: after two recorded alerts,
  \<open>getHistory(-1)\<close> returns one alert, which is more than \<open>-1\<close>.
\<close>

theorem getHistory_negative_limit:
  "fst (getHistory
          (projr (sends (new_AlertManager dev_env)
                    [(at_time 1000, disk_alert), (at_time 2000, both_alert)]))
          (Some (- 1)))
     = [both_alert] \<and>
   \<not> int (length (fst (getHistory
          (projr (sends (new_AlertManager dev_env)
                    [(at_time 1000, disk_alert), (at_time 2000, both_alert)]))
          (Some (- 1))))) \<le> - 1"
proof -
  from two_alert_run obtain m' and r1 :: send_result where
    run: "sends (new_AlertManager dev_env) [(at_time 1000, disk_alert), (at_time 2000, both_alert)]
            = Inr m'" and
    h: "alertHistory m' = [both_alert, stamped r1]"
    by blast
  have "fst (getHistory m' (Some (- 1))) = [both_alert]"
    by (simp add: getHistory_def slice0_def Let_def h)
  then show ?thesis unfolding run sum.sel by simp
qed

text \<open>
  C9: when \<open>send\<close> suppresses an alert, the manager is unchanged: the history, the
  rate limiter and the channels are as before, no adapter is invoked, and the only
  effect is the log entry. The suppression happened because the time stored for the key,
  which is not zero, is less than 300000 ms before the clock reading; because that time
  is kept, any later alert with the same title and severity is again measured against
  it, not against the suppressed attempt.
\<close>

theorem suppressed_send_changes_nothing:
  "fst (isRateLimited w m (stamp w alert)) \<longrightarrow>
     send w m alert =
       Inr \<lparr>manager = m, stamped = stamp w alert, events = [Log Warn ''Alert rate limited'']\<rparr>
     \<and> (\<exists>T. rateLimiter m (rate_key alert) = Some T \<and> T \<noteq> 0 \<and> Date_now1 w - T < 300000 \<and>
            (\<forall>w' a'. title a' = title alert \<and> severity a' = severity alert \<longrightarrow>
               fst (isRateLimited w' m (stamp w' a')) = (Date_now1 w' - T < 300000)))"
proof
  assume lim: "fst (isRateLimited w m (stamp w alert))"
  then have s: "send w m alert =
       Inr \<lparr>manager = m, stamped = stamp w alert, events = [Log Warn ''Alert rate limited'']\<rparr>"
    by (simp add: send_limited)
  from lim obtain T where T: "rateLimiter m (rate_key alert) = Some T" "T \<noteq> 0"
      "Date_now1 w - T < 300000"
    by (auto simp: isRateLimited_True_iff rateLimitWindow_def)
  have "fst (isRateLimited w' m (stamp w' a')) = (Date_now1 w' - T < 300000)"
    if "title a' = title alert \<and> severity a' = severity alert" for w' a'
  proof -
    from that have "rate_key a' = rate_key alert" by (simp add: rate_key_def)
    with T show ?thesis by (simp add: isRateLimited_True_iff rateLimitWindow_def)
  qed
  with s T show "send w m alert =
       Inr \<lparr>manager = m, stamped = stamp w alert, events = [Log Warn ''Alert rate limited'']\<rparr>
     \<and> (\<exists>T. rateLimiter m (rate_key alert) = Some T \<and> T \<noteq> 0 \<and> Date_now1 w - T < 300000 \<and>
            (\<forall>w' a'. title a' = title alert \<and> severity a' = severity alert \<longrightarrow>
               fst (isRateLimited w' m (stamp w' a')) = (Date_now1 w' - T < 300000)))"
    by blast
qed

theorem suppressed_send_changes_nothing_witness:
  "fst (isRateLimited (at_time 1000) full_manager (stamp (at_time 1000) disk_alert)) \<and>
   send (at_time 1000) full_manager disk_alert =
     Inr \<lparr>manager = full_manager, stamped = stamp (at_time 1000) disk_alert,
          events = [Log Warn ''Alert rate limited'']\<rparr> \<and>
   \<not> fst (isRateLimited (at_time 300007) full_manager (stamp (at_time 300007) disk_alert))"
proof -
  have lim: "fst (isRateLimited (at_time 1000) full_manager (stamp (at_time 1000) disk_alert))"
    by (simp add: isRateLimited_True_iff full_manager_def rate_key_def disk_alert_def
          at_time_def rateLimitWindow_def stamp_def)
  have key: "rateLimiter full_manager (rate_key disk_alert) = Some 7"
    by (simp add: full_manager_def rate_key_def disk_alert_def)
  from suppressed_send_changes_nothing [of "at_time 1000" full_manager disk_alert] lim
  obtain T where
    s: "send (at_time 1000) full_manager disk_alert =
          Inr \<lparr>manager = full_manager, stamped = stamp (at_time 1000) disk_alert,
               events = [Log Warn ''Alert rate limited'']\<rparr>" and
    T: "rateLimiter full_manager (rate_key disk_alert) = Some T" and
    later: "\<forall>w' a'. title a' = title disk_alert \<and> severity a' = severity disk_alert \<longrightarrow>
               fst (isRateLimited w' full_manager (stamp w' a')) = (Date_now1 w' - T < 300000)"
    by blast
  from T key have "T = 7" by simp
  with later have "\<not> fst (isRateLimited (at_time 300007) full_manager
                          (stamp (at_time 300007) disk_alert))"
    by (simp add: at_time_def)
  with lim s show ?thesis by blast
qed




text \<open>
  C2: for every alert, manager and world, \<open>send\<close> is fulfilled, never rejected, and so
  is every \<open>sendToChannel\<close> call. When the alert passes the rate limiter, the adapter of
  every resolved channel that is configured and enabled is invoked, whatever the outcome
  of the adapter calls of the other channels, and a failure of that adapter is logged.
\<close>

theorem send_settles_every_channel:
  "(\<exists>r. send w m alert = Inr r \<and>
      (\<not> fst (isRateLimited w m (stamp w alert)) \<longrightarrow>
         (\<forall>i cc. i < length (resolve_channels alert) \<and>
                 channels_m m (resolve_channels alert ! i) = Some cc \<and> enabled cc \<longrightarrow>
            Invoked (resolve_channels alert ! i) (stamp w alert) \<in> set (events r) \<and>
            (adapter_fails w i \<noteq> None \<longrightarrow>
               Log Error (''Failed to send alert to '' @ channel_name (resolve_channels alert ! i))
                 \<in> set (events r)))))
   \<and> snd (sendToChannel outcome m alert channel) = Inr ()"
proof (cases "fst (isRateLimited w m (stamp w alert))")
  case True
  then show ?thesis by (simp add: send_limited sendToChannel_settles)
next
  case False
  from send_delivered [OF False] obtain r where
    r: "send w m alert = Inr r" and
    ev: "events r = concat (map fst (dispatch w (manager r) (stamp w alert) (resolve_channels alert)))
                      @ [Log Info ''Alert sent'']"
    by blast
  have ch: "channels_m (manager r) = channels_m m"
    by (rule send_channels_m [OF r])
  have "Invoked (resolve_channels alert ! i) (stamp w alert) \<in> set (events r) \<and>
            (adapter_fails w i \<noteq> None \<longrightarrow>
               Log Error (''Failed to send alert to '' @ channel_name (resolve_channels alert ! i))
                 \<in> set (events r))"
    if h: "i < length (resolve_channels alert) \<and>
                 channels_m m (resolve_channels alert ! i) = Some cc \<and> enabled cc" for i cc
  proof -
    let ?c = "resolve_channels alert ! i"
    let ?evs = "fst (sendToChannel (adapter_fails w i) (manager r) (stamp w alert) ?c)"
    from h have sub: "set ?evs \<subseteq> set (events r)"
      using dispatch_events_subset [of i "resolve_channels alert" w "manager r" "stamp w alert"]
      by (auto simp: ev)
    from h ch have "Invoked ?c (stamp w alert) \<in> set ?evs"
      by (simp add: sendToChannel_Invoked_iff)
    moreover have "Log Error (''Failed to send alert to '' @ channel_name ?c) \<in> set ?evs"
      if "adapter_fails w i \<noteq> None"
      using h ch that by (intro sendToChannel_failure_logged [of _ _ cc]) simp_all
    ultimately show ?thesis using sub by blast
  qed
  then have "\<forall>i cc. i < length (resolve_channels alert) \<and>
                 channels_m m (resolve_channels alert ! i) = Some cc \<and> enabled cc \<longrightarrow>
            Invoked (resolve_channels alert ! i) (stamp w alert) \<in> set (events r) \<and>
            (adapter_fails w i \<noteq> None \<longrightarrow>
               Log Error (''Failed to send alert to '' @ channel_name (resolve_channels alert ! i))
                 \<in> set (events r))"
    by blast
  with r sendToChannel_settles [of outcome m alert channel] show ?thesis by blast
qed

theorem send_settles_every_channel_witness:
  "\<exists>r. send (first_fails_at 1000) (new_AlertManager dev_env) both_alert = Inr r \<and>
       Invoked SLACK both_alert \<in> set (events r) \<and>
       Log Error ''Failed to send alert to slack'' \<in> set (events r) \<and>
       Invoked CONSOLE both_alert \<in> set (events r)"
proof -
  let ?w = "first_fails_at 1000" and ?m = "new_AlertManager dev_env"
  have free: "\<not> fst (isRateLimited ?w ?m (stamp ?w both_alert))"
    by (simp add: isRateLimited_True_iff)
  have rc: "resolve_channels both_alert = [SLACK, CONSOLE]"
    by (simp add: resolve_channels_def both_alert_def)
  have st: "stamp ?w both_alert = both_alert"
    by (simp add: stamp_def both_alert_def)
  have console: "channels_m ?m CONSOLE = Some \<lparr>enabled = True, config = []\<rparr>"
    by (simp add: new_AlertManager_console dev_env_def)
  obtain cs where slack: "channels_m ?m SLACK = Some cs" and on: "enabled cs"
    by (simp add: new_AlertManager_def initializeChannels_def Let_def dev_env_def)
  from send_settles_every_channel [of ?w ?m both_alert None SLACK] free
  obtain r where
    r: "send ?w ?m both_alert = Inr r" and
    every: "\<forall>i cc. i < length (resolve_channels both_alert) \<and>
                 channels_m ?m (resolve_channels both_alert ! i) = Some cc \<and> enabled cc \<longrightarrow>
            Invoked (resolve_channels both_alert ! i) (stamp ?w both_alert) \<in> set (events r) \<and>
            (adapter_fails ?w i \<noteq> None \<longrightarrow>
               Log Error (''Failed to send alert to ''
                            @ channel_name (resolve_channels both_alert ! i))
                 \<in> set (events r))"
    by blast
  have fails: "adapter_fails ?w 0 \<noteq> None"
    by simp
  from every [rule_format, of 0 cs] slack on fails
  have s: "Invoked SLACK both_alert \<in> set (events r) \<and>
           Log Error ''Failed to send alert to slack'' \<in> set (events r)"
    by (simp add: rc st)
  from every [rule_format, of 1 "\<lparr>enabled = True, config = []\<rparr>"] console
  have "Invoked CONSOLE both_alert \<in> set (events r)"
    by (simp add: rc st)
  with r s show ?thesis by blast
qed

text \<open>
  C4, as amended: the constructor always registers the console channel, whatever the
  webhook URL, the SMTP host and the integration key are, but enables it exactly when
  \<open>NODE_ENV\<close> is \<open>development\<close>. On a manager as constructed, \<open>sendToChannel\<close> for the
  console channel invokes the console adapter exactly then, and a \<open>send\<close> invokes it
  exactly when the resolved channels include console and \<open>NODE_ENV\<close> is \<open>development\<close>.
\<close>

theorem console_enabled_iff_development:
  "channels_m (new_AlertManager env) CONSOLE =
     Some \<lparr>enabled = (env ''NODE_ENV'' = Some ''development''), config = []\<rparr>
   \<and> (Invoked CONSOLE alert
         \<in> set (fst (sendToChannel outcome (new_AlertManager env) alert CONSOLE)))
       = (env ''NODE_ENV'' = Some ''development'')
   \<and> (\<exists>r. send w (new_AlertManager env) alert = Inr r \<and>
          (Invoked CONSOLE (stamp w alert) \<in> set (events r))
            = (CONSOLE \<in> set (resolve_channels alert) \<and> env ''NODE_ENV'' = Some ''development''))
   \<and> (Log Debug ''Channel console not enabled, skipping''
         \<in> set (fst (sendToChannel outcome (new_AlertManager env) alert CONSOLE)))
       = (env ''NODE_ENV'' \<noteq> Some ''development'')"
proof -
  note c = new_AlertManager_console [of env]
  have skip: "(Log Debug ''Channel console not enabled, skipping''
         \<in> set (fst (sendToChannel outcome (new_AlertManager env) alert CONSOLE)))
       = (env ''NODE_ENV'' \<noteq> Some ''development'')"
    using sendToChannel_skipped_iff [of CONSOLE outcome "new_AlertManager env" alert CONSOLE]
    by (simp add: c)
  have a: "(Invoked CONSOLE al \<in> set (fst (sendToChannel outcome' m' al CONSOLE)))
       = (env ''NODE_ENV'' = Some ''development'')"
    if "channels_m m' = channels_m (new_AlertManager env)" for outcome' m' al
    using that by (simp add: sendToChannel_Invoked_iff c)
  have fresh: "\<not> fst (isRateLimited w (new_AlertManager env) (stamp w alert))"
    by (simp add: isRateLimited_True_iff)
  from send_delivered [OF fresh] obtain r where
    r: "send w (new_AlertManager env) alert = Inr r" and
    ev: "events r = concat (map fst (dispatch w (manager r) (stamp w alert) (resolve_channels alert)))
                      @ [Log Info ''Alert sent'']"
    by blast
  have ch: "channels_m (manager r) = channels_m (new_AlertManager env)"
    by (rule send_channels_m [OF r])
  have "(Invoked CONSOLE (stamp w alert) \<in> set (events r))
            = (CONSOLE \<in> set (resolve_channels alert) \<and> env ''NODE_ENV'' = Some ''development'')"
  proof
    assume "Invoked CONSOLE (stamp w alert) \<in> set (events r)"
    then have "Invoked CONSOLE (stamp w alert)
        \<in> set (concat (map fst (dispatch w (manager r) (stamp w alert) (resolve_channels alert))))"
      by (simp add: ev)
    from dispatch_events_elim [OF this] obtain i where
      i: "i < length (resolve_channels alert)" and
      "Invoked CONSOLE (stamp w alert)
         \<in> set (fst (sendToChannel (adapter_fails w i) (manager r) (stamp w alert)
                      (resolve_channels alert ! i)))"
      by blast
    then have "resolve_channels alert ! i = CONSOLE \<and> env ''NODE_ENV'' = Some ''development''"
      by (auto simp: sendToChannel_Invoked_iff ch c)
    with i show "CONSOLE \<in> set (resolve_channels alert) \<and> env ''NODE_ENV'' = Some ''development''"
      by (metis nth_mem)
  next
    assume h: "CONSOLE \<in> set (resolve_channels alert) \<and> env ''NODE_ENV'' = Some ''development''"
    then obtain i where i: "i < length (resolve_channels alert)" "resolve_channels alert ! i = CONSOLE"
      by (auto simp: in_set_conv_nth)
    from h ch have "Invoked CONSOLE (stamp w alert)
         \<in> set (fst (sendToChannel (adapter_fails w i) (manager r) (stamp w alert) CONSOLE))"
      by (simp add: a)
    with dispatch_events_subset [OF i(1), of w "manager r" "stamp w alert"] i(2)
    show "Invoked CONSOLE (stamp w alert) \<in> set (events r)"
      by (auto simp: ev)
  qed
  with c a [of "new_AlertManager env" alert outcome] r skip show ?thesis by simp
qed

theorem console_enabled_iff_development_witness:
  "channels_m (new_AlertManager dev_env) CONSOLE = Some \<lparr>enabled = True, config = []\<rparr> \<and>
   Invoked CONSOLE both_alert
     \<in> set (fst (sendToChannel None (new_AlertManager dev_env) both_alert CONSOLE)) \<and>
   (\<exists>r. send (at_time 1000) (new_AlertManager dev_env) both_alert = Inr r \<and>
        Invoked CONSOLE (stamp (at_time 1000) both_alert) \<in> set (events r))"
proof -
  have rc: "resolve_channels both_alert = [SLACK, CONSOLE]"
    by (simp add: resolve_channels_def both_alert_def)
  have dev: "dev_env ''NODE_ENV'' = Some ''development''"
    by (simp add: dev_env_def)
  from console_enabled_iff_development [of dev_env both_alert None "at_time 1000"] rc dev
  show ?thesis by simp
qed

text \<open>
  The claim as stated fails: with \<open>NODE_ENV\<close> set to \<open>production\<close>, an info alert
  resolves to the console channel alone, and \<open>sendToChannel\<close> skips it.
\<close>

theorem console_skipped_in_production:
  "resolve_channels
     \<lparr>severity = ''info'', title = ''disk'', message = ''full'', context_a = None,
      channels = None, tags = None, timestamp = Some 1\<rparr> = [CONSOLE] \<and>
   sendToChannel None (new_AlertManager (map_of [(''NODE_ENV'', ''production'')]))
     \<lparr>severity = ''info'', title = ''disk'', message = ''full'', context_a = None,
      channels = None, tags = None, timestamp = Some 1\<rparr> CONSOLE
   = ([Log Debug ''Channel console not enabled, skipping''], Inr ())"
  by (simp add: resolve_channels_def getDefaultChannels_def CRITICAL_def HIGH_def WARNING_def
        sendToChannel_def new_AlertManager_def initializeChannels_def Let_def)

section \<open>Properties of the error handler\<close>

lemma recordFailures_append:
  "recordFailures reg key (ts @ us) = recordFailures (recordFailures reg key ts) key us"
  by (induction ts arbitrary: reg) simp_all

lemma recordFailure_threshold [simp]: "threshold (recordFailure t reg key) = threshold reg"
  by (simp add: recordFailure_def Let_def split: BreakerState.splits)

lemma recordFailure_closed:
  "cb_state (breaker_of reg key) = Closed \<Longrightarrow>
   breaker_of (recordFailure t reg key) key =
     \<lparr>cb_state = (if threshold reg \<le> Suc (failures (breaker_of reg key)) then Open else Closed),
      failures = Suc (failures (breaker_of reg key)), lastFailure = Some t\<rparr>"
  by (simp add: recordFailure_def breaker_of_def Let_def split: option.splits)

lemma below_threshold_stays_closed:
  "cb_state (breaker_of reg key) = Closed \<Longrightarrow>
   failures (breaker_of reg key) + length ts < threshold reg \<Longrightarrow>
   cb_state (breaker_of (recordFailures reg key ts) key) = Closed \<and>
   failures (breaker_of (recordFailures reg key ts) key) = failures (breaker_of reg key) + length ts
   \<and> threshold (recordFailures reg key ts) = threshold reg"
proof (induction ts arbitrary: reg)
  case Nil
  then show ?case by simp
next
  case (Cons t ts)
  let ?reg = "recordFailure t reg key"
  from Cons.prems have b: "breaker_of ?reg key =
     \<lparr>cb_state = Closed, failures = Suc (failures (breaker_of reg key)), lastFailure = Some t\<rparr>"
    by (simp add: recordFailure_closed)
  then have "cb_state (breaker_of ?reg key) = Closed"
    and "failures (breaker_of ?reg key) + length ts < threshold ?reg"
    using Cons.prems by simp_all
  from Cons.IH [OF this] b show ?case by simp
qed

lemma attempt_alerts:
  "alerts (attempt fmt hw h e) = alerts h \<or>
   (\<exists>r. send (hw_escalate hw) (alerts h) (escalate_alert fmt e) = Inr r \<and>
        alerts (attempt fmt hw h e) = manager r)"
  by (auto simp: attempt_def send_alert_def split: option.splits RecoveryStrategy.splits sum.splits)

lemma attempt_without_escalation:
  "recovery e \<noteq> Some ESCALATE \<Longrightarrow> alerts (attempt fmt hw h e) = alerts h"
  by (auto simp: attempt_def split: option.splits RecoveryStrategy.splits)

lemma handle_critical_steps:
  assumes n: "normalize (next_id h) (hw_now hw) (hw_ambient hw) f = (e, nid)"
    and crit: "err_severity e = SEV_CRITICAL"
    and r: "send (hw_gate hw) (alerts h) (critical_alert fmt e) = Inr r"
  shows "\<exists>h2. alerts h2 = manager r \<and>
              handle fmt hw h f = (if recoverable e then attempt fmt hw h2 e else h2)"
proof -
  obtain count occ where
    o: "recordOccurrence (occurrences h) (err_category e) (err_code e) = (count, occ)"
    by (cases "recordOccurrence (occurrences h) (err_category e) (err_code e)")
  define h2 where "h2 = h\<lparr>next_id := nid, occurrences := occ, alerts := manager r\<rparr>"
  have "alerts h2 = manager r" by (simp add: h2_def)
  moreover have "handle fmt hw h f = (if recoverable e then attempt fmt hw h2 e else h2)"
    by (simp add: handle_def n o crit Let_def send_alert_def r h2_def)
  ultimately show ?thesis by blast
qed

lemma handle_critical_history:
  assumes reach: "reachable (alerts h)"
    and n: "normalize (next_id h) (hw_now hw) (hw_ambient hw) f = (e, nid)"
    and crit: "err_severity e = SEV_CRITICAL"
  shows "alertHistory (alerts (handle fmt hw h f)) \<noteq> []"
    and "\<not> fst (isRateLimited (hw_gate hw) (alerts h)
                 (stamp (hw_gate hw) (critical_alert fmt e))) \<Longrightarrow>
         stamp (hw_gate hw) (critical_alert fmt e)
           \<in> set (alertHistory (alerts (handle fmt hw h f)))"
proof -
  let ?a = "critical_alert fmt e"
  let ?w = "hw_gate hw"
  from send_total obtain r where r: "send ?w (alerts h) ?a = Inr r" by blast
  from handle_critical_steps [OF n crit r] obtain h2 where
    a2: "alerts h2 = manager r" and
    run: "handle fmt hw h f = (if recoverable e then attempt fmt hw h2 e else h2)"
    by blast
  from reach have "rateLimiter (alerts h) (rate_key ?a) \<noteq> None \<longrightarrow> alertHistory (alerts h) \<noteq> []"
    by (rule reachable_limiter_backed)
  from send_history_nonempty [OF r this] have ne2: "alertHistory (manager r) \<noteq> []" .
  show "alertHistory (alerts (handle fmt hw h f)) \<noteq> []"
    using attempt_alerts [of fmt hw h2 e] ne2 send_keeps_nonempty
    by (auto simp: run a2)
  show "stamp ?w ?a \<in> set (alertHistory (alerts (handle fmt hw h f)))"
    if free: "\<not> fst (isRateLimited ?w (alerts h) (stamp ?w ?a))"
  proof -
    from send_delivered [OF free] r have head: "hd (alertHistory (manager r)) = stamp ?w ?a"
      by simp
    with ne2 have here: "stamp ?w ?a \<in> set (alertHistory (manager r))"
      by (metis hd_in_set)
    have "stamp ?w ?a \<in> set (alertHistory (alerts (attempt fmt hw h2 e)))"
    proof (cases "alerts (attempt fmt hw h2 e) = alerts h2")
      case True
      with here show ?thesis by (simp add: a2)
    next
      case False
      with attempt_alerts [of fmt hw h2 e] obtain r' where
        r': "send (hw_escalate hw) (manager r) (escalate_alert fmt e) = Inr r'" and
        at: "alerts (attempt fmt hw h2 e) = manager r'"
        by (auto simp: a2)
      from send_keeps_head [OF r' ne2] show ?thesis by (simp add: at head)
    qed
    with here show ?thesis by (simp add: run a2)
  qed
qed

lemma handle_critical_suppressed:
  assumes n: "normalize (next_id h) (hw_now hw) (hw_ambient hw) f = (e, nid)"
    and crit: "err_severity e = SEV_CRITICAL"
    and lim: "fst (isRateLimited (hw_gate hw) (alerts h)
                    (stamp (hw_gate hw) (critical_alert fmt e)))"
    and plain: "\<not> (recoverable e \<and> recovery e = Some ESCALATE)"
  shows "alerts (handle fmt hw h f) = alerts h"
proof -
  from send_total obtain r where r: "send (hw_gate hw) (alerts h) (critical_alert fmt e) = Inr r"
    by blast
  from send_manager_limited [OF r lim] have same: "manager r = alerts h" .
  from handle_critical_steps [OF n crit r] obtain h2 where
    a2: "alerts h2 = manager r" and
    run: "handle fmt hw h f = (if recoverable e then attempt fmt hw h2 e else h2)"
    by blast
  show ?thesis
  proof (cases "recoverable e")
    case True
    with plain have "recovery e \<noteq> Some ESCALATE" by simp
    from attempt_without_escalation [OF this] True show ?thesis
      by (simp add: run a2 same)
  next
    case False
    then show ?thesis by (simp add: run a2 same)
  qed
qed

section \<open>The claims about the error handler\<close>

text \<open>
  C7: a breaker for key \<open>K\<close> that is closed with failure counter zero (also one not
  created yet), under a configured threshold \<open>N\<close> of at least one, is open after \<open>N\<close>
  consecutive \<open>recordFailure\<close> calls for \<open>K\<close> and closed after every smaller number of
  them, whatever the clock reads at the calls.
\<close>

theorem breaker_opens_on_threshold:
  "cb_state (breaker_of reg K) = Closed \<and> failures (breaker_of reg K) = 0 \<and>
   threshold reg = N \<and> 0 < N \<and> length ts = N \<longrightarrow>
     getState (recordFailures reg K ts) K = Open \<and>
     (\<forall>j < N. getState (recordFailures reg K (take j ts)) K = Closed)"
proof
  assume h: "cb_state (breaker_of reg K) = Closed \<and> failures (breaker_of reg K) = 0 \<and>
   threshold reg = N \<and> 0 < N \<and> length ts = N"
  have early: "cb_state (breaker_of (recordFailures reg K (take j ts)) K) = Closed \<and>
      failures (breaker_of (recordFailures reg K (take j ts)) K) = j \<and>
      threshold (recordFailures reg K (take j ts)) = N" if "j < N" for j
    using below_threshold_stays_closed [of reg K "take j ts"] h that by simp
  from h obtain us t where ts: "ts = us @ [t]" and us: "us = take (N - 1) ts"
    by (metis One_nat_def butlast_conv_take length_greater_0_conv snoc_eq_iff_butlast)
  from h have "N - 1 < N" by simp
  from early [OF this] us
  have "cb_state (breaker_of (recordFailures reg K us) K) = Closed"
    "failures (breaker_of (recordFailures reg K us) K) = N - 1"
    "threshold (recordFailures reg K us) = N"
    by simp_all
  with h have "cb_state (breaker_of (recordFailure t (recordFailures reg K us) K) K) = Open"
    by (simp add: recordFailure_closed)
  then have "getState (recordFailures reg K ts) K = Open"
    by (simp add: ts recordFailures_append getState_def)
  with early show "getState (recordFailures reg K ts) K = Open \<and>
     (\<forall>j < N. getState (recordFailures reg K (take j ts)) K = Closed)"
    by (simp add: getState_def)
qed

theorem breaker_opens_on_threshold_witness:
  "getState new_CircuitBreakerRegistry ''external_service:PAYMENT_GATEWAY_DOWN'' = Closed \<and>
   threshold new_CircuitBreakerRegistry = 5 \<and>
   getState (recordFailures new_CircuitBreakerRegistry
               ''external_service:PAYMENT_GATEWAY_DOWN'' [10, 20, 30, 40, 50])
            ''external_service:PAYMENT_GATEWAY_DOWN'' = Open \<and>
   getState (recordFailures new_CircuitBreakerRegistry
               ''external_service:PAYMENT_GATEWAY_DOWN'' [10, 20, 30, 40])
            ''external_service:PAYMENT_GATEWAY_DOWN'' = Closed"
proof -
  let ?K = "''external_service:PAYMENT_GATEWAY_DOWN''"
  have start: "cb_state (breaker_of new_CircuitBreakerRegistry ?K) = Closed \<and>
      failures (breaker_of new_CircuitBreakerRegistry ?K) = 0 \<and>
      threshold new_CircuitBreakerRegistry = 5 \<and> (0::nat) < 5 \<and>
      length [10, 20, 30, 40, 50 :: int] = 5"
    by (simp add: breaker_of_def new_CircuitBreakerRegistry_def)
  from breaker_opens_on_threshold
         [of new_CircuitBreakerRegistry ?K 5 "[10, 20, 30, 40, 50]", THEN mp, OF start]
  have opened: "getState (recordFailures new_CircuitBreakerRegistry ?K [10, 20, 30, 40, 50]) ?K
                  = Open"
    and before: "\<forall>j < 5. getState (recordFailures new_CircuitBreakerRegistry ?K
                                      (take j [10, 20, 30, 40, 50])) ?K = Closed"
    by blast+
  from before [rule_format, of 4]
  have "getState (recordFailures new_CircuitBreakerRegistry ?K [10, 20, 30, 40]) ?K = Closed"
    by simp
  with start opened show ?thesis by (simp add: getState_def)
qed

text \<open>
  C8: normalising a failure that is already a canonical error returns that record and
  allocates no id; so normalising the result of a normalisation again, at any time and
  in any ambient context, gives the result of the first normalisation.
\<close>

theorem normalize_idempotent:
  "normalize n now amb (Canonical e) = (e, n) \<and>
   normalize (snd (normalize n now amb f)) now' amb' (Canonical (fst (normalize n now amb f)))
     = normalize n now amb f"
  by (simp add: normalize_def split: failure.splits)

theorem normalize_idempotent_witness:
  "normalize 1 1000 no_ambient (Canonical uncaught) = (uncaught, 1) \<and>
   snd (normalize 1 1000 no_ambient (Foreign ''boom'' ''at main'')) = 2 \<and>
   normalize 2 2000 no_ambient
     (Canonical (fst (normalize 1 1000 no_ambient (Foreign ''boom'' ''at main''))))
     = normalize 1 1000 no_ambient (Foreign ''boom'' ''at main'')"
proof -
  have "snd (normalize 1 1000 no_ambient (Foreign ''boom'' ''at main'')) = 2"
    by (simp add: normalize_def)
  with normalize_idempotent [of 1 1000 no_ambient uncaught "Foreign ''boom'' ''at main''"
                                2000 no_ambient]
  show ?thesis by simp
qed

text \<open>
  C6, as amended: whatever the failure registry has counted, \<open>handle\<close> of a failure
  whose canonical severity is critical passes the critical alert to \<open>send\<close>. Unless
  the rate limiter suppresses it, because an alert with the same title and severity was
  sent less than 300000 ms before, the alert of this call is in the history afterwards.
  When it is suppressed and the error is not escalated, the alert manager is unchanged.
  In every state the alert manager can reach, the history holds at least one alert
  after the call.
\<close>

theorem handle_critical_records_alert:
  "(let e = fst (normalize (next_id h) (hw_now hw) (hw_ambient hw) f);
        a = stamp (hw_gate hw) (critical_alert fmt e);
        limited = fst (isRateLimited (hw_gate hw) (alerts h) a)
    in reachable (alerts h) \<and> err_severity e = SEV_CRITICAL \<longrightarrow>
         alertHistory (alerts (handle fmt hw h f)) \<noteq> [] \<and>
         (\<not> limited \<longrightarrow> a \<in> set (alertHistory (alerts (handle fmt hw h f)))) \<and>
         (limited \<and> \<not> (recoverable e \<and> recovery e = Some ESCALATE) \<longrightarrow>
            alerts (handle fmt hw h f) = alerts h))"
proof -
  obtain e nid where n: "normalize (next_id h) (hw_now hw) (hw_ambient hw) f = (e, nid)"
    by (cases "normalize (next_id h) (hw_now hw) (hw_ambient hw) f")
  have "alertHistory (alerts (handle fmt hw h f)) \<noteq> [] \<and>
         (\<not> fst (isRateLimited (hw_gate hw) (alerts h) (stamp (hw_gate hw) (critical_alert fmt e)))
            \<longrightarrow> stamp (hw_gate hw) (critical_alert fmt e)
                  \<in> set (alertHistory (alerts (handle fmt hw h f)))) \<and>
         (fst (isRateLimited (hw_gate hw) (alerts h) (stamp (hw_gate hw) (critical_alert fmt e)))
            \<and> \<not> (recoverable e \<and> recovery e = Some ESCALATE) \<longrightarrow>
            alerts (handle fmt hw h f) = alerts h)"
    if "reachable (alerts h)" and "err_severity e = SEV_CRITICAL"
    using handle_critical_history [OF that(1) n that(2), of fmt]
      handle_critical_suppressed [OF n that(2), of fmt]
    by blast
  then show ?thesis by (simp add: Let_def n)
qed

theorem handle_critical_records_alert_witness:
  "reachable (alerts fresh_handler) \<and> err_severity uncaught = SEV_CRITICAL \<and>
   alertHistory (alerts (handle plain_formats quiet_world fresh_handler (Canonical uncaught)))
     \<noteq> [] \<and>
   stamp (at_time 1000) (critical_alert plain_formats uncaught)
     \<in> set (alertHistory
              (alerts (handle plain_formats quiet_world fresh_handler (Canonical uncaught)))) \<and>
   alerts (handle plain_formats later_world
             (handle plain_formats quiet_world fresh_handler (Canonical uncaught))
             (Canonical uncaught))
     = alerts (handle plain_formats quiet_world fresh_handler (Canonical uncaught))"
proof -
  let ?h1 = "handle plain_formats quiet_world fresh_handler (Canonical uncaught)"
  have reach: "reachable (alerts fresh_handler)"
    by (simp add: fresh_handler_def reachable.constructed)
  have norm: "fst (normalize n t amb (Canonical uncaught)) = uncaught" for n t amb
    by (simp add: normalize_def)
  have crit: "err_severity uncaught = SEV_CRITICAL"
    and plain: "\<not> (recoverable uncaught \<and> recovery uncaught = Some ESCALATE)"
    by (simp_all add: uncaught_def)
  have gate: "hw_gate quiet_world = at_time 1000" "hw_gate later_world = at_time 2000"
    by (simp_all add: quiet_world_def later_world_def)
  have free: "\<not> fst (isRateLimited (at_time 1000) (alerts fresh_handler)
                        (stamp (at_time 1000) (critical_alert plain_formats uncaught)))"
    by (simp add: isRateLimited_True_iff fresh_handler_def)
  from handle_critical_records_alert
         [of fresh_handler quiet_world "Canonical uncaught" plain_formats] reach crit free
  have first: "alertHistory (alerts ?h1) \<noteq> [] \<and>
        stamp (at_time 1000) (critical_alert plain_formats uncaught)
          \<in> set (alertHistory (alerts ?h1))"
    by (simp add: Let_def norm gate)
  from send_total obtain r where
    r: "send (at_time 1000) (alerts fresh_handler) (critical_alert plain_formats uncaught) = Inr r"
    by blast
  have n1: "normalize (next_id fresh_handler) (hw_now quiet_world) (hw_ambient quiet_world)
              (Canonical uncaught) = (uncaught, next_id fresh_handler)"
    by (simp add: normalize_def)
  from handle_critical_steps [OF n1 crit, of plain_formats r] r gate
  have a1: "alerts ?h1 = manager r"
    using plain by (auto simp: uncaught_def)
  from send_passes [OF free] r obtain T where
    T: "rateLimiter (manager r)
          (title (critical_alert plain_formats uncaught) @ '':''
             @ severity (critical_alert plain_formats uncaught)) = Some T"
       "T = 1000"
    by auto
  then have "rateLimiter (manager r) (rate_key (critical_alert plain_formats uncaught))
               = Some 1000"
    by (simp add: rate_key_def)
  then have lim: "fst (isRateLimited (at_time 2000) (alerts ?h1)
                        (stamp (at_time 2000) (critical_alert plain_formats uncaught)))"
    unfolding a1 by (simp add: isRateLimited_True_iff rateLimitWindow_def)
  have r1: "reachable (alerts ?h1)"
    unfolding a1 using reachable.after_send [OF reach r] .
  from handle_critical_records_alert
         [of ?h1 later_world "Canonical uncaught" plain_formats] r1 crit lim plain
  have "alerts (handle plain_formats later_world ?h1 (Canonical uncaught)) = alerts ?h1"
    by (simp add: Let_def norm gate)
  with reach crit first show ?thesis by blast
qed

text \<open>
  The claim as stated fails for a repeated failure: the second \<open>handle\<close> of the same
  critical error, 1000 ms after the first, leaves the alert manager as it was, with the
  one alert of the first call in the history.
\<close>

theorem repeated_critical_failure_not_recorded:
  "alertHistory (alerts (handle plain_formats quiet_world fresh_handler (Canonical uncaught)))
     = [stamp (at_time 1000) (critical_alert plain_formats uncaught)] \<and>
   alerts (handle plain_formats later_world
             (handle plain_formats quiet_world fresh_handler (Canonical uncaught))
             (Canonical uncaught))
     = alerts (handle plain_formats quiet_world fresh_handler (Canonical uncaught))"
proof -
  let ?h1 = "handle plain_formats quiet_world fresh_handler (Canonical uncaught)"
  let ?a = "critical_alert plain_formats uncaught"
  have crit: "err_severity uncaught = SEV_CRITICAL"
    and plain: "\<not> (recoverable uncaught \<and> recovery uncaught = Some ESCALATE)"
    by (simp_all add: uncaught_def)
  have gate: "hw_gate quiet_world = at_time 1000" "hw_gate later_world = at_time 2000"
    by (simp_all add: quiet_world_def later_world_def)
  have free: "\<not> fst (isRateLimited (at_time 1000) (alerts fresh_handler) (stamp (at_time 1000) ?a))"
    by (simp add: isRateLimited_True_iff fresh_handler_def)
  from send_passes [OF free] obtain r T where
    r: "send (at_time 1000) (alerts fresh_handler) ?a = Inr r" and
    h: "alertHistory (manager r) =
          stamp (at_time 1000) ?a #
          (if length (alertHistory (alerts fresh_handler)) < 100
           then alertHistory (alerts fresh_handler)
           else butlast (alertHistory (alerts fresh_handler)))" and
    T: "rateLimiter (manager r) (title ?a @ '':'' @ severity ?a) = Some T" and
    T': "T = Date_now1 (at_time 1000) \<or> T = Date_now2 (at_time 1000)"
    by (elim exE conjE)
  have n1: "normalize (next_id fresh_handler) (hw_now quiet_world) (hw_ambient quiet_world)
              (Canonical uncaught) = (uncaught, next_id fresh_handler)"
    by (simp add: normalize_def)
  from handle_critical_steps [OF n1 crit, of plain_formats r] r gate
  have a1: "alerts ?h1 = manager r"
    using plain by (auto simp: uncaught_def)
  have e0: "alertHistory (alerts fresh_handler) = []"
    by (simp add: fresh_handler_def)
  have h1: "alertHistory (alerts ?h1) = [stamp (at_time 1000) ?a]"
    unfolding a1 using h e0 by simp
  from T' have "T = 1000" by simp
  with T have "rateLimiter (manager r) (rate_key ?a) = Some 1000"
    by (simp add: rate_key_def)
  then have lim: "fst (isRateLimited (hw_gate later_world) (alerts ?h1)
                        (stamp (hw_gate later_world) ?a))"
    unfolding a1 gate by (simp add: isRateLimited_True_iff rateLimitWindow_def)
  have n2: "normalize (next_id ?h1) (hw_now later_world) (hw_ambient later_world)
              (Canonical uncaught) = (uncaught, next_id ?h1)"
    by (simp add: normalize_def)
  from handle_critical_suppressed [OF n2 crit lim plain] h1 show ?thesis by simp
qed

end
